theory Spec2Isabelle
  imports Main "HOL-Library.AList"
begin

section \<open>JSON values of the JavaScript runtime\<close>

text \<open>
  The three programs of the repository move JSON documents between two search clusters.
  A document is a JavaScript object; its own string keys keep their insertion order, so an
  object is an association list. Numbers are restricted to integers.
\<close>

datatype jvalue =
    JNull
  | JBool bool
  | JNum int
  | JStr string
  | JArr "jvalue list"
  | JObj "(string \<times> jvalue) list"

type_synonym fields = "(string \<times> jvalue) list"

text \<open>JavaScript truthiness, as tested by \<^verbatim>\<open>x && ...\<close>.\<close>

fun truthy :: "jvalue \<Rightarrow> bool" where
  "truthy JNull = False"
| "truthy (JBool b) = b"
| "truthy (JNum n) = (n \<noteq> 0)"
| "truthy (JStr s) = (s \<noteq> [])"
| "truthy (JArr xs) = True"
| "truthy (JObj kvs) = True"

text \<open>
  \<^verbatim>\<open>JSON.parse\<close> belongs to the runtime. The programs only need to know whether it
  returns a value or throws, so the decoder is a parameter of the model: \<open>None\<close> is the
  thrown \<^verbatim>\<open>SyntaxError\<close>.
\<close>

type_synonym decoder = "string \<Rightarrow> jvalue option"

section \<open>Records, bulk requests and responses\<close>

text \<open>A hit of a search or scroll page: \<^verbatim>\<open>doc._id\<close> and \<^verbatim>\<open>doc._source\<close>.\<close>

record hit =
  doc_id :: string
  doc_source :: fields

text \<open>
  The body of a bulk request is a flat array: an action line followed by its payload line.
  \<^verbatim>\<open>{ index: { _index, _id } }, source\<close> in the two unconditional programs,
  \<^verbatim>\<open>{ update: { _index, _id } }, { doc: source, doc_as_upsert: true }\<close> in the
  differential one.
\<close>

datatype operation =
    IndexAction string string
  | SourceBody fields
  | UpdateAction string string
  | UpsertBody fields

datatype item_result = ItemOk | ItemError

record bulk_item =
  item_index :: "item_result option"
  item_update :: "item_result option"

record bulk_response =
  errors :: bool
  items :: "bulk_item list"

text \<open>A rejected promise carries an error; only \<^verbatim>\<open>error.meta.statusCode\<close> is inspected.\<close>

datatype failure = Failure (statusCode: "nat option")

datatype 'a outcome = Resolved 'a | Rejected failure

section \<open>Observable effects\<close>

datatype message =
    ParseFailed string
  | BulkHadErrors nat
  | BulkAllRetriesFailed
  | BulkRetrying nat
  | BulkInsertFailed nat nat
  | BulkIndexingError
  | ScrollFailed
  | ClearScrollFailed
  | SearchFailed
  | SyncFailed
  | CheckFailed string

datatype event =
    LogError message
  | Call string
  | BulkCall "operation list"
  | Sleep nat
  | ScrollCall
  | ClearScrollCall
  | GetCall string
  | RestartTimer nat

record counters =
  processedDocs :: nat
  failedDocs :: nat
  trace :: "event list"

definition emit :: "event \<Rightarrow> 'a counters_scheme \<Rightarrow> 'a counters_scheme" where
  "emit e st = st\<lparr>trace := trace st @ [e]\<rparr>"

text \<open>Projections of a trace: the waits, the bulk requests sent, the errors logged.\<close>

definition sleeps :: "event list \<Rightarrow> nat list" where
  "sleeps tr = [ms. Sleep ms \<leftarrow> tr]"

definition bulk_calls :: "event list \<Rightarrow> operation list list" where
  "bulk_calls tr = [ops. BulkCall ops \<leftarrow> tr]"

definition logged :: "event list \<Rightarrow> message list" where
  "logged tr = [m. LogError m \<leftarrow> tr]"

section \<open>Document transformer\<close>

text \<open>
  The block shared by the three programs:
  \<^verbatim>\<open>if (source.jsonPayload && typeof source.jsonPayload === 'string') {
     try { source.jsonPayload = JSON.parse(source.jsonPayload); } catch (parseError) { ... } }\<close>
  \<open>None\<close> means that the catch branch ran; the assignment keeps the key's position.
\<close>

definition decode_payload :: "decoder \<Rightarrow> fields \<Rightarrow> fields option" where
  "decode_payload parse source =
     (case map_of source ''jsonPayload'' of
        Some (JStr s) \<Rightarrow>
          (if s \<noteq> [] then
             (case parse s of
                Some v \<Rightarrow> Some (AList.update ''jsonPayload'' v source)
              | None \<Rightarrow> None)
           else Some source)
      | _ \<Rightarrow> Some source)"

text \<open>
  \<^verbatim>\<open>documents.flatMap(doc => ...)\<close> of the restarting program (sync-clusters.js, lines
  126-139) and of the throttled program (part_000, lines 107-120). The catch branch logs and
  increments \<^verbatim>\<open>failedDocs\<close>; control then reaches the \<^verbatim>\<open>return\<close> with the
  source left as it was.
\<close>

fun operations :: "decoder \<Rightarrow> string \<Rightarrow> hit list \<Rightarrow> 'a counters_scheme
    \<Rightarrow> operation list \<times> 'a counters_scheme" where
  "operations parse targetIndex [] st = ([], st)"
| "operations parse targetIndex (doc # documents) st =
     (let (source, st1) =
            (case decode_payload parse (doc_source doc) of
               Some decoded \<Rightarrow> (decoded, st)
             | None \<Rightarrow>
                 (doc_source doc,
                  (emit (LogError (ParseFailed (doc_id doc))) st)
                    \<lparr>failedDocs := failedDocs st + 1\<rparr>));
          (rest, st2) = operations parse targetIndex documents st1
      in ([IndexAction targetIndex (doc_id doc), SourceBody source] @ rest, st2))"


section \<open>The collaborators' responses\<close>

text \<open>
  The source and target clusters are outside the repository. A pass is run against the
  responses they give: one field per awaited call. \<open>bulk n i\<close> is the outcome of attempt
  \<open>i\<close> (counted from 0) of the bulk call of batch \<open>n\<close>. \<open>scrolls\<close> lists the
  outcomes of the successive scroll calls; once they are used up the snapshot is exhausted
  and the source answers with an empty page. A response of the wrong shape (no body, no
  hits) is \<open>None\<close> or \<open>False\<close>.
\<close>

datatype get_body = GetBody (stored_source: "jvalue option")

datatype get_response = GetResponse (body: "get_body option")

record env =
  indexExists :: "bool outcome"
  getMapping :: "bool outcome"
  createIndex :: "unit outcome"
  countDocs :: "nat option outcome"
  search :: "hit list option outcome"
  scrolls :: "hit list option outcome list"
  bulk :: "nat \<Rightarrow> nat \<Rightarrow> bulk_response outcome"
  clearScroll :: "unit outcome"
  get :: "nat \<Rightarrow> string \<Rightarrow> string \<Rightarrow> get_response outcome"
  targetCount :: "nat \<Rightarrow> nat option outcome"

text \<open>How a block of code ends: normally, or by a thrown error.\<close>

datatype 's completion = Returned 's | Threw failure 's

fun state_of :: "'s completion \<Rightarrow> 's" where
  "state_of (Returned st) = st"
| "state_of (Threw f st) = st"

definition init :: counters where
  "init = \<lparr>processedDocs = 0, failedDocs = 0, trace = []\<rparr>"

text \<open>
  Index provisioning, the same control flow in the restarting and in the throttled program:
  \<^verbatim>\<open>if (!indexExists) { getMapping; if (!sourceMapping.body) throw ...; create }\<close>.
  \<open>getMapping e = Resolved True\<close> stands for a response with a body that holds the
  mapping of the source index, so that reading it (and, in the restarting program, editing
  it) does not throw.
\<close>

definition provision :: "env \<Rightarrow> 'a counters_scheme \<Rightarrow> 'a counters_scheme completion" where
  "provision e st =
     (let st1 = emit (Call ''indices.exists'') st in
      case indexExists e of
        Rejected f \<Rightarrow> Threw f st1
      | Resolved True \<Rightarrow> Returned st1
      | Resolved False \<Rightarrow>
          (let st2 = emit (Call ''indices.getMapping'') st1 in
           case getMapping e of
             Rejected f \<Rightarrow> Threw f st2
           | Resolved False \<Rightarrow> Threw (Failure None) st2
           | Resolved True \<Rightarrow>
               (let st3 = emit (Call ''indices.create'') st2 in
                case createIndex e of
                  Rejected f \<Rightarrow> Threw f st3
                | Resolved u \<Rightarrow> Returned st3)))"

text \<open>\<^verbatim>\<open>items.filter(item => item.index && item.index.error).length\<close>\<close>

definition index_errors :: "bulk_item list \<Rightarrow> nat" where
  "index_errors its = length (filter (\<lambda>item. item_index item = Some ItemError) its)"

definition tally_errors :: "bulk_response \<Rightarrow> 'a counters_scheme \<Rightarrow> 'a counters_scheme" where
  "tally_errors resp st =
     (if errors resp then
        (emit (LogError (BulkHadErrors (index_errors (items resp)))) st)
          \<lparr>failedDocs := failedDocs st + index_errors (items resp)\<rparr>
      else st)"

section \<open>The restarting program (sync-clusters.js, lines 1-218)\<close>

text \<open>
  \<^verbatim>\<open>let retries = 3; while (retries > 0) { try { bulk; ...; break; }
     catch (bulkError) { retries--; if (retries === 0) { ...; throw bulkError; } ...;
       await sleep((3 - retries) * 1000); } }\<close>
\<close>

fun bulk_retry_restart :: "(nat \<Rightarrow> bulk_response outcome) \<Rightarrow> operation list \<Rightarrow> nat \<Rightarrow> nat
    \<Rightarrow> 'a counters_scheme \<Rightarrow> 'a counters_scheme completion" where
  "bulk_retry_restart bulkN ops ndocs 0 st = Returned st"
| "bulk_retry_restart bulkN ops ndocs (Suc retries) st =
     (let st1 = emit (BulkCall ops) st in
      case bulkN (3 - Suc retries) of
        Resolved resp \<Rightarrow> Returned (tally_errors resp st1)
      | Rejected bulkError \<Rightarrow>
          (if retries = 0 then
             Threw bulkError
               ((emit (LogError BulkAllRetriesFailed) st1)
                  \<lparr>failedDocs := failedDocs st1 + ndocs\<rparr>)
           else
             bulk_retry_restart bulkN ops ndocs retries
               (emit (Sleep ((3 - retries) * 1000))
                 (emit (LogError (BulkRetrying retries)) st1))))"

text \<open>One iteration of \<^verbatim>\<open>while (documents.length > 0)\<close>, up to the scroll call.\<close>

definition batch_restart :: "decoder \<Rightarrow> string \<Rightarrow> (nat \<Rightarrow> bulk_response outcome) \<Rightarrow> hit list
    \<Rightarrow> 'a counters_scheme \<Rightarrow> 'a counters_scheme completion" where
  "batch_restart parse targetIndex bulkN documents st =
     (let st1 = st\<lparr>processedDocs := processedDocs st + length documents\<rparr>;
          (ops, st2) = operations parse targetIndex documents st1
      in bulk_retry_restart bulkN ops (length documents) 3 st2)"

fun pages_restart :: "decoder \<Rightarrow> string \<Rightarrow> (nat \<Rightarrow> nat \<Rightarrow> bulk_response outcome) \<Rightarrow> nat
    \<Rightarrow> hit list \<Rightarrow> hit list option outcome list
    \<Rightarrow> 'a counters_scheme \<Rightarrow> 'a counters_scheme completion" where
  "pages_restart parse targetIndex bulkE n [] rs st = Returned st"
| "pages_restart parse targetIndex bulkE n (d # ds) rs st =
     (case batch_restart parse targetIndex (bulkE n) (d # ds) st of
        Threw f st1 \<Rightarrow> Threw f st1
      | Returned st1 \<Rightarrow>
          (let st2 = emit ScrollCall st1 in
           case rs of
             [] \<Rightarrow> Returned st2
           | Resolved (Some hits) # rs' \<Rightarrow>
               pages_restart parse targetIndex bulkE (n + 1) hits rs' st2
           | Resolved None # rs' \<Rightarrow> Threw (Failure None) (emit (LogError ScrollFailed) st2)
           | Rejected f # rs' \<Rightarrow> Threw f (emit (LogError ScrollFailed) st2)))"

text \<open>
  One pass. Every error is logged by the outer catch and thrown again; a pass that reaches
  its end sets a timer that calls \<^verbatim>\<open>syncData\<close> again after 5000 ms.
\<close>

definition rethrow :: "failure \<Rightarrow> 'a counters_scheme \<Rightarrow> 'a counters_scheme completion" where
  "rethrow f st = Threw f (emit (LogError SyncFailed) st)"

definition syncData_restart :: "decoder \<Rightarrow> string \<Rightarrow> env \<Rightarrow> counters completion" where
  "syncData_restart parse targetIndex e =
     (case provision e init of
        Threw f st \<Rightarrow> rethrow f st
      | Returned st0 \<Rightarrow>
     (case countDocs e of
        Rejected f \<Rightarrow> rethrow f (emit (Call ''count'') st0)
      | Resolved None \<Rightarrow> rethrow (Failure None) (emit (Call ''count'') st0)
      | Resolved (Some totalDocs) \<Rightarrow>
     (let st1 = emit (Call ''search'') (emit (Call ''count'') st0) in
      case search e of
        Rejected f \<Rightarrow> rethrow f (emit (LogError SearchFailed) st1)
      | Resolved None \<Rightarrow> rethrow (Failure None) st1
      | Resolved (Some documents) \<Rightarrow>
     (case pages_restart parse targetIndex (bulk e) 0 documents (scrolls e) st1 of
        Threw f st2 \<Rightarrow> rethrow f st2
      | Returned st2 \<Rightarrow>
          (let st3 = emit ClearScrollCall st2;
               st4 = (case clearScroll e of
                        Rejected f \<Rightarrow> emit (LogError ClearScrollFailed) st3
                      | Resolved u \<Rightarrow> st3)
           in Returned (emit (RestartTimer 5000) st4))))))"

section \<open>The throttled program (part_000)\<close>

definition BASE_DELAY :: nat where "BASE_DELAY = 10000"
definition MAX_DELAY :: nat where "MAX_DELAY = 60000"
definition MAX_RETRIES :: nat where "MAX_RETRIES = 5"

record throttled = counters +
  delay :: nat

text \<open>
  \<^verbatim>\<open>let success = false; let retries = 0;
  while (!success && retries < MAX_RETRIES) { try { bulk; ...; success = true; }
    catch (bulkError) { retries++; logError(...); await sleep(delay);
      delay = Math.min(delay * 2, MAX_DELAY); } }\<close>
  Nothing reads \<^verbatim>\<open>success\<close> after the loop, so the state is all that is returned.
\<close>

function bulk_retry_throttled :: "(nat \<Rightarrow> bulk_response outcome) \<Rightarrow> operation list \<Rightarrow> nat
    \<Rightarrow> throttled \<Rightarrow> throttled" where
  "bulk_retry_throttled bulkN ops retries st =
     (if retries < MAX_RETRIES then
        (let st1 = emit (BulkCall ops) st in
         case bulkN retries of
           Resolved resp \<Rightarrow> tally_errors resp st1
         | Rejected bulkError \<Rightarrow>
             bulk_retry_throttled bulkN ops (retries + 1)
               ((emit (Sleep (delay st1))
                  (emit (LogError (BulkInsertFailed (retries + 1) MAX_RETRIES)) st1))
                 \<lparr>delay := min (delay st1 * 2) MAX_DELAY\<rparr>))
      else st)"
  by pat_completeness auto
termination
  by (relation "measure (\<lambda>(bulkN, ops, retries, st). MAX_RETRIES - retries)") auto

declare bulk_retry_throttled.simps [simp del]

text \<open>One iteration of the page loop, up to the pacing wait before the scroll call.\<close>

definition batch_throttled :: "decoder \<Rightarrow> string \<Rightarrow> (nat \<Rightarrow> bulk_response outcome) \<Rightarrow> hit list
    \<Rightarrow> throttled \<Rightarrow> throttled" where
  "batch_throttled parse targetIndex bulkN documents st =
     (let (ops, st1) = operations parse targetIndex documents st;
          st2 = bulk_retry_throttled bulkN ops 0 st1;
          st3 = st2\<lparr>processedDocs := processedDocs st2 + length documents\<rparr>
      in emit (Sleep (delay st3)) st3)"

fun pages_throttled :: "decoder \<Rightarrow> string \<Rightarrow> (nat \<Rightarrow> nat \<Rightarrow> bulk_response outcome) \<Rightarrow> nat
    \<Rightarrow> hit list \<Rightarrow> hit list option outcome list \<Rightarrow> throttled \<Rightarrow> throttled completion" where
  "pages_throttled parse targetIndex bulkE n [] rs st = Returned st"
| "pages_throttled parse targetIndex bulkE n (d # ds) rs st =
     (let st1 = emit ScrollCall (batch_throttled parse targetIndex (bulkE n) (d # ds) st) in
      case rs of
        [] \<Rightarrow> Returned st1
      | Resolved (Some hits) # rs' \<Rightarrow> pages_throttled parse targetIndex bulkE (n + 1) hits rs' st1
      | Resolved None # rs' \<Rightarrow> Threw (Failure None) st1
      | Rejected f # rs' \<Rightarrow> Threw f st1)"

definition init_throttled :: throttled where
  "init_throttled = \<lparr>processedDocs = 0, failedDocs = 0, trace = [], delay = BASE_DELAY\<rparr>"

text \<open>One pass: the outer catch logs the error and returns.\<close>

definition swallow :: "'a counters_scheme completion \<Rightarrow> 'a counters_scheme" where
  "swallow c = (case c of Returned st \<Rightarrow> st | Threw f st \<Rightarrow> emit (LogError SyncFailed) st)"

definition syncData_throttled :: "decoder \<Rightarrow> string \<Rightarrow> env \<Rightarrow> throttled" where
  "syncData_throttled parse targetIndex e =
     swallow
     (case provision e init_throttled of
        Threw f st \<Rightarrow> Threw f st
      | Returned st0 \<Rightarrow>
     (case countDocs e of
        Rejected f \<Rightarrow> Threw f (emit (Call ''count'') st0)
      | Resolved None \<Rightarrow> Threw (Failure None) (emit (Call ''count'') st0)
      | Resolved (Some totalDocs) \<Rightarrow>
     (let st1 = emit (Call ''search'') (emit (Call ''count'') st0) in
      case search e of
        Rejected f \<Rightarrow> Threw f st1
      | Resolved None \<Rightarrow> Threw (Failure None) st1
      | Resolved (Some documents) \<Rightarrow>
     (case pages_throttled parse targetIndex (bulk e) 0 documents (scrolls e) st1 of
        Threw f st2 \<Rightarrow> Threw f st2
      | Returned st2 \<Rightarrow>
          (let st3 = emit ClearScrollCall st2 in
           case clearScroll e of
             Rejected f \<Rightarrow> Threw f st3
           | Resolved u \<Rightarrow> Returned st3)))))"


section \<open>Auxiliary functions for stating the retry behaviour\<close>

text \<open>The waits of \<open>k\<close> failed attempts that start from delay \<open>d\<close>, and the delay left.\<close>

fun backoff :: "nat \<Rightarrow> nat \<Rightarrow> nat list" where
  "backoff d 0 = []"
| "backoff d (Suc k) = d # backoff (min (d * 2) MAX_DELAY) k"

fun raised :: "nat \<Rightarrow> nat \<Rightarrow> nat" where
  "raised d 0 = d"
| "raised d (Suc k) = raised (min (d * 2) MAX_DELAY) k"

text \<open>The events of \<open>k\<close> failed attempts of the throttled retry loop.\<close>

fun attempts :: "operation list \<Rightarrow> nat \<Rightarrow> nat \<Rightarrow> nat \<Rightarrow> event list" where
  "attempts ops r d 0 = []"
| "attempts ops r d (Suc k) =
     [BulkCall ops, LogError (BulkInsertFailed (r + 1) MAX_RETRIES), Sleep d]
     @ attempts ops (r + 1) (min (d * 2) MAX_DELAY) k"

text \<open>A bulk response without item errors, and oracles for examples.\<close>

definition accepted :: bulk_response where
  "accepted = \<lparr>errors = False, items = []\<rparr>"

definition failing_first :: "nat \<Rightarrow> nat \<Rightarrow> bulk_response outcome" where
  "failing_first k i = (if i < k then Rejected (Failure None) else Resolved accepted)"

section \<open>Auxiliary functions for stating the transformer's behaviour\<close>

text \<open>A record whose payload text the decoder rejects, and the source that is written for a record.\<close>

definition undecodable :: "decoder \<Rightarrow> hit \<Rightarrow> bool" where
  "undecodable parse doc = (decode_payload parse (doc_source doc) = None)"

definition written_source :: "decoder \<Rightarrow> hit \<Rightarrow> fields" where
  "written_source parse doc =
     (case decode_payload parse (doc_source doc) of
        Some decoded \<Rightarrow> decoded
      | None \<Rightarrow> doc_source doc)"

text \<open>
  What \<^verbatim>\<open>JSON.parse\<close> answers on the two payload texts of the examples below: the text
  \<^verbatim>\<open>[1]\<close> is an array, the text \<^verbatim>\<open>{oops\<close> is rejected. No other text is given to it.
\<close>

definition decode_sample :: decoder where
  "decode_sample s = (if s = ''[1]'' then Some (JArr [JNum 1]) else None)"

text \<open>
  The page of the end-to-end scenario: \<open>a\<close> has a valid encoded payload, \<open>b\<close> a payload
  that is already structured, \<open>c\<close> a malformed encoded payload.
\<close>

definition doc_a :: hit where
  "doc_a = \<lparr>doc_id = ''a'', doc_source = [(''jsonPayload'', JStr ''[1]'')]\<rparr>"

definition doc_b :: hit where
  "doc_b = \<lparr>doc_id = ''b'', doc_source = [(''jsonPayload'', JArr [JNum 2])]\<rparr>"

definition doc_c :: hit where
  "doc_c = \<lparr>doc_id = ''c'', doc_source = [(''jsonPayload'', JStr ''{oops'')]\<rparr>"

text \<open>A bulk oracle whose every attempt is rejected.\<close>

definition always_rejected :: "nat \<Rightarrow> bulk_response outcome" where
  "always_rejected i = Rejected (Failure None)"

text \<open>A bulk oracle that rejects every attempt of batch 0 and accepts all later batches.\<close>

definition lost_first :: "nat \<Rightarrow> nat \<Rightarrow> bulk_response outcome" where
  "lost_first n i = (if n = 0 then Rejected (Failure None) else Resolved accepted)"

text \<open>A run in which the target exists, the source has two pages and every bulk call is rejected.\<close>

definition env_lost :: env where
  "env_lost =
     \<lparr>indexExists = Resolved True, getMapping = Resolved True, createIndex = Resolved (),
      countDocs = Resolved (Some 2), search = Resolved (Some [doc_b]),
      scrolls = [Resolved (Some [doc_a])], bulk = (\<lambda>n. always_rejected),
      clearScroll = Resolved (), get = (\<lambda>n i d. Rejected (Failure None)),
      targetCount = (\<lambda>n. Resolved (Some 0))\<rparr>"

section \<open>Auxiliary functions for stating the pacing behaviour\<close>

text \<open>
  Two invariants of the throttled state: every wait so far lies between the two bounds, and
  every wait so far equals the base delay. Both depend only on the delay and the waits.
\<close>

definition paced :: "throttled \<Rightarrow> bool" where
  "paced st = (BASE_DELAY \<le> delay st \<and> delay st \<le> MAX_DELAY \<and>
      list_all (\<lambda>ms. BASE_DELAY \<le> ms \<and> ms \<le> MAX_DELAY) (sleeps (trace st)))"

definition calm :: "throttled \<Rightarrow> bool" where
  "calm st = (delay st = BASE_DELAY \<and> list_all (\<lambda>ms. ms = BASE_DELAY) (sleeps (trace st)))"

definition pace_view :: "throttled \<Rightarrow> nat \<times> nat list" where
  "pace_view st = (delay st, sleeps (trace st))"

text \<open>
  A run against a source holding the given pages, with the target index present and every
  call but the bulk calls answered without error.
\<close>

definition env_of :: "hit list \<Rightarrow> hit list list \<Rightarrow> (nat \<Rightarrow> nat \<Rightarrow> bulk_response outcome) \<Rightarrow> env" where
  "env_of first rest bulkE =
     \<lparr>indexExists = Resolved True, getMapping = Resolved True, createIndex = Resolved (),
      countDocs = Resolved (Some (length (concat (first # rest)))), search = Resolved (Some first),
      scrolls = map (\<lambda>p. Resolved (Some p)) rest, bulk = bulkE,
      clearScroll = Resolved (), get = (\<lambda>n i d. Rejected (Failure None)),
      targetCount = (\<lambda>n. Resolved (Some 0))\<rparr>"

text \<open>A bulk oracle that rejects the first attempt of batch 0 only.\<close>

definition stumble_first :: "nat \<Rightarrow> nat \<Rightarrow> bulk_response outcome" where
  "stumble_first n i = (if n = 0 \<and> i = 0 then Rejected (Failure None) else Resolved accepted)"

section \<open>JSON.stringify of the runtime\<close>

text \<open>
  \<^verbatim>\<open>JSON.stringify\<close> without indentation, on the values of \<open>jvalue\<close>: members in
  insertion order, no white space, strings quoted with the escapes of ECMAScript's
  QuoteJSONString (a character of the model is one code unit below 256).
\<close>

definition dquote :: char where "dquote = CHR 0x22"
definition bslash :: char where "bslash = CHR 0x5C"

definition hex_digit :: "nat \<Rightarrow> char" where
  "hex_digit n = (if n < 10 then char_of (48 + n) else char_of (87 + n))"

definition escape_char :: "char \<Rightarrow> string" where
  "escape_char c =
     (if c = dquote then [bslash, dquote]
      else if c = bslash then [bslash, bslash]
      else if c = CHR 0x08 then [bslash, CHR ''b'']
      else if c = CHR 0x0C then [bslash, CHR ''f'']
      else if c = CHR 0x0A then [bslash, CHR ''n'']
      else if c = CHR 0x0D then [bslash, CHR ''r'']
      else if c = CHR 0x09 then [bslash, CHR ''t'']
      else if (of_char c :: nat) < 32 then
        [bslash, CHR ''u'', CHR ''0'', CHR ''0'',
         hex_digit (of_char c div 16), hex_digit (of_char c mod 16)]
      else [c])"

definition quote :: "string \<Rightarrow> string" where
  "quote s = dquote # concat (map escape_char s) @ [dquote]"

fun digits :: "nat \<Rightarrow> string" where
  "digits n = (if n < 10 then [char_of (48 + n)] else digits (n div 10) @ [char_of (48 + n mod 10)])"

declare digits.simps [simp del]

definition number_text :: "int \<Rightarrow> string" where
  "number_text n = (if n < 0 then CHR ''-'' # digits (nat (- n)) else digits (nat n))"

fun commas :: "string list \<Rightarrow> string" where
  "commas [] = []"
| "commas [s] = s"
| "commas (s # t # ts) = s @ CHR '','' # commas (t # ts)"

fun stringify :: "jvalue \<Rightarrow> string" where
  "stringify JNull = ''null''"
| "stringify (JBool b) = (if b then ''true'' else ''false'')"
| "stringify (JNum n) = number_text n"
| "stringify (JStr s) = quote s"
| "stringify (JArr xs) = CHR ''['' # commas (map stringify xs) @ [CHR '']'']"
| "stringify (JObj kvs) =
     CHR ''{'' # commas (map (\<lambda>(k, v). quote k @ CHR '':'' # stringify v) kvs) @ [CHR ''}'']"

section \<open>The differential program (sync-clusters.js, lines 219-428)\<close>

text \<open>
  \<^verbatim>\<open>hasDocumentChanged(index, docId, newData)\<close>: the stored document is fetched and the
  two serializations are compared as strings. Every path but the equal one returns true;
  an error other than 404 is logged first.
\<close>

definition hasDocumentChanged :: "(string \<Rightarrow> string \<Rightarrow> get_response outcome) \<Rightarrow> string \<Rightarrow> string
    \<Rightarrow> fields \<Rightarrow> 'a counters_scheme \<Rightarrow> bool \<times> 'a counters_scheme" where
  "hasDocumentChanged tget index docId newData st =
     (let st1 = emit (GetCall docId) st in
      case tget index docId of
        Resolved response \<Rightarrow>
          (case body response of
             Some b \<Rightarrow>
               (case stored_source b of
                  Some existingData \<Rightarrow>
                    (if truthy existingData
                        \<and> stringify existingData = stringify (JObj newData)
                     then (False, st1) else (True, st1))
                | None \<Rightarrow> (True, st1))
           | None \<Rightarrow> (True, st1))
      | Rejected error \<Rightarrow>
          (if statusCode error = Some 404 then (True, st1)
           else (True, emit (LogError (CheckFailed docId)) st1)))"

text \<open>\<^verbatim>\<open>getElasticsearchDocCount\<close>: any error is logged and answered with 0.\<close>

definition getElasticsearchDocCount :: "nat option outcome \<Rightarrow> nat" where
  "getElasticsearchDocCount r = (case r of Resolved (Some n) \<Rightarrow> n | _ \<Rightarrow> 0)"

record diff = counters +
  updatedDocs :: nat
  skippedDocs :: nat
  batchNumber :: nat

text \<open>
  \<^verbatim>\<open>for (const doc of documents) { ... }\<close>: a record that fails to decode is counted and
  skipped, an unchanged one is counted and skipped, the others are pushed.
\<close>

fun collect :: "decoder \<Rightarrow> (string \<Rightarrow> string \<Rightarrow> get_response outcome) \<Rightarrow> string \<Rightarrow> hit list
    \<Rightarrow> diff \<Rightarrow> operation list \<times> diff" where
  "collect parse tget targetIndex [] st = ([], st)"
| "collect parse tget targetIndex (doc # documents) st =
     (case decode_payload parse (doc_source doc) of
        None \<Rightarrow>
          collect parse tget targetIndex documents
            ((emit (LogError (ParseFailed (doc_id doc))) st)\<lparr>failedDocs := failedDocs st + 1\<rparr>)
      | Some source \<Rightarrow>
          (let (needsUpdate, st1) = hasDocumentChanged tget targetIndex (doc_id doc) source st in
           if \<not> needsUpdate then
             collect parse tget targetIndex documents (st1\<lparr>skippedDocs := skippedDocs st1 + 1\<rparr>)
           else
             (let (rest, st2) = collect parse tget targetIndex documents st1
              in ([UpdateAction targetIndex (doc_id doc), UpsertBody source] @ rest, st2))))"

text \<open>\<^verbatim>\<open>bulkResponse.items.forEach(item => { if (item.update && item.update.error) ... })\<close>\<close>

definition tally_item :: "diff \<Rightarrow> bulk_item \<Rightarrow> diff" where
  "tally_item st item =
     (if item_update item = Some ItemError then st\<lparr>failedDocs := failedDocs st + 1\<rparr>
      else st\<lparr>updatedDocs := updatedDocs st + 1\<rparr>)"

text \<open>One iteration of \<^verbatim>\<open>while (documents.length > 0)\<close>.\<close>

definition batch_diff :: "decoder \<Rightarrow> string \<Rightarrow> env \<Rightarrow> hit list \<Rightarrow> diff \<Rightarrow> diff" where
  "batch_diff parse targetIndex e documents st =
     (let st1 = st\<lparr>batchNumber := batchNumber st + 1,
                   processedDocs := processedDocs st + length documents\<rparr>;
          (ops, st2) = collect parse (get e (batchNumber st1)) targetIndex documents st1
      in if length ops > 0 then
           (let st3 = emit (BulkCall ops) st2 in
            case bulk e (batchNumber st1) 0 of
              Resolved bulkResponse \<Rightarrow> foldl tally_item st3 (items bulkResponse)
            | Rejected bulkError \<Rightarrow>
                (emit (LogError BulkIndexingError) st3)
                  \<lparr>failedDocs := failedDocs st3 + length ops div 2\<rparr>)
         else st2)"

text \<open>
  The loop itself. Its body never assigns \<^verbatim>\<open>documents\<close> (there is no scroll call), so
  the loop may run forever: \<open>None\<close> is the loop that does not end.
\<close>

partial_function (option) batches_diff :: "decoder \<Rightarrow> string \<Rightarrow> env \<Rightarrow> hit list \<Rightarrow> diff
    \<Rightarrow> diff option" where
  "batches_diff parse targetIndex e documents st =
     (if length documents > 0 then
        batches_diff parse targetIndex e documents (batch_diff parse targetIndex e documents st)
      else Some st)"

definition init_diff :: diff where
  "init_diff = \<lparr>processedDocs = 0, failedDocs = 0, trace = [],
                 updatedDocs = 0, skippedDocs = 0, batchNumber = 0\<rparr>"

text \<open>
  One iteration of the outer \<^verbatim>\<open>while (true)\<close> up to the one-minute wait: the pass
  returns from \<^verbatim>\<open>syncData\<close> when the source is empty, completes, or ends in the catch
  branch. \<open>None\<close>: the pass does not end.
\<close>

datatype pass_end = ReturnedEmpty diff | Completed diff | Caught diff

definition pass_diff :: "decoder \<Rightarrow> string \<Rightarrow> env \<Rightarrow> pass_end option" where
  "pass_diff parse targetIndex e =
     (let st0 = emit (Call ''count'') init_diff in
      case countDocs e of
        Rejected f \<Rightarrow> Some (Caught (emit (LogError SyncFailed) st0))
      | Resolved None \<Rightarrow> Some (Caught (emit (LogError SyncFailed) st0))
      | Resolved (Some totalDocs) \<Rightarrow>
          (if totalDocs = 0 then Some (ReturnedEmpty st0)
           else
             (let elasticBeforeCount = getElasticsearchDocCount (targetCount e 0);
                  st1 = emit (Call ''search'') (emit (Call ''target count'') st0) in
              case search e of
                Rejected f \<Rightarrow> Some (Caught (emit (LogError SyncFailed) st1))
              | Resolved None \<Rightarrow> Some (Caught (emit (LogError SyncFailed) st1))
              | Resolved (Some documents) \<Rightarrow>
                  (case batches_diff parse targetIndex e documents st1 of
                     None \<Rightarrow> None
                   | Some st2 \<Rightarrow> Some (Completed (emit (Call ''target count'') st2))))))"

section \<open>Deep structural equality\<close>

text \<open>
  The comparison the specification asks of the change detector, written from its words:
  two values are equal when they have the same shape and equal parts, whatever the order of
  the members of an object.
\<close>

function (sequential) deep_equal :: "jvalue \<Rightarrow> jvalue \<Rightarrow> bool" where
  "deep_equal JNull JNull = True"
| "deep_equal (JBool a) (JBool b) = (a = b)"
| "deep_equal (JNum a) (JNum b) = (a = b)"
| "deep_equal (JStr a) (JStr b) = (a = b)"
| "deep_equal (JArr xs) (JArr ys) =
     (length xs = length ys \<and> (\<forall>(x, y) \<in> set (zip xs ys). deep_equal x y))"
| "deep_equal (JObj a) (JObj b) =
     (set (map fst a) = set (map fst b) \<and>
      (\<forall>(k, v) \<in> set a. case map_of b k of Some w \<Rightarrow> deep_equal v w | None \<Rightarrow> False))"
| "deep_equal u v = False"
  by pat_completeness auto
termination
proof (relation "measure (\<lambda>(u, v). size u)", goal_cases)
  case 1
  show ?case by simp
next
  case (2 xs ys p x y)
  then have "x \<in> set xs" by (auto dest: set_zip_leftD)
  then have "size x \<le> size_list size xs" by (rule size_list_estimation') simp
  then show ?case by simp
next
  case (3 a b p k v w)
  then have "(k, v) \<in> set a" by simp
  then have "size v < Suc (size_list (size_prod (\<lambda>x. 0) size) a)"
    by (induction a) auto
  then show ?case by simp
qed

section \<open>Auxiliary functions for stating the differential program's behaviour\<close>

text \<open>A fetch that finds the given stored document.\<close>

definition found :: "jvalue \<Rightarrow> string \<Rightarrow> string \<Rightarrow> get_response outcome" where
  "found existing index docId = Resolved (GetResponse (Some (GetBody (Some existing))))"

text \<open>Two documents with the same members in a different order.\<close>

definition stored_ab :: fields where
  "stored_ab = [(''a'', JNum 1), (''b'', JNum 2)]"

definition candidate_ba :: fields where
  "candidate_ba = [(''b'', JNum 2), (''a'', JNum 1)]"






section \<open>The scheduler loops\<close>

text \<open>
  The programs never stop by themselves, so a scheduler is a transition system: what is
  pending in the event loop, and how each happening changes it. \<open>main_at\<close> is where the
  top-level loop stands: awaiting the pass it called, waiting for its timer, or left.
  \<open>detached\<close> counts the passes in flight that were started by a restart timer,
  \<open>restart_timers\<close> the restart timers that have not fired yet. A pass ends with the
  responses it was given; a happening that cannot occur in a state yields \<open>None\<close>.
\<close>

datatype main_state = AwaitingPass | WaitingTimer nat | Exited

record sched =
  main_at :: main_state
  detached :: nat
  restart_timers :: nat

datatype happening = MainPassEnds env | MainTimerFires | DetachedPassEnds env | RestartTimerFires

definition boot :: sched where
  "boot = \<lparr>main_at = AwaitingPass, detached = 0, restart_timers = 0\<rparr>"

definition timers_set :: "event list \<Rightarrow> nat" where
  "timers_set tr = length [ms. RestartTimer ms \<leftarrow> tr]"

definition passes_in_flight :: "sched \<Rightarrow> nat" where
  "passes_in_flight s = (if main_at s = AwaitingPass then 1 else 0) + detached s"

text \<open>
  The restarting program:
  \<^verbatim>\<open>async function main() { while (true) { try { await syncData(...); }
     catch (error) { console.error(...); } await sleep(5000); } }\<close>
  together with the \<^verbatim>\<open>setTimeout(() => syncData(...), 5000)\<close> at the end of every pass
  that completes. Nothing awaits or catches a pass started by that timer; what the runtime
  does with the rejection of such a pass is not modelled.
\<close>

fun step_restart :: "decoder \<Rightarrow> string \<Rightarrow> sched \<Rightarrow> happening \<Rightarrow> sched option" where
  "step_restart parse t s (MainPassEnds e) =
     (if main_at s = AwaitingPass then
        Some (s\<lparr>main_at := WaitingTimer 5000,
                restart_timers := restart_timers s
                  + timers_set (trace (state_of (syncData_restart parse t e)))\<rparr>)
      else None)"
| "step_restart parse t s MainTimerFires =
     (case main_at s of
        WaitingTimer ms \<Rightarrow> Some (s\<lparr>main_at := AwaitingPass\<rparr>)
      | _ \<Rightarrow> None)"
| "step_restart parse t s RestartTimerFires =
     (if restart_timers s > 0 then
        Some (s\<lparr>restart_timers := restart_timers s - 1, detached := detached s + 1\<rparr>)
      else None)"
| "step_restart parse t s (DetachedPassEnds e) =
     (if detached s > 0 then
        Some (s\<lparr>detached := detached s - 1,
                restart_timers := restart_timers s
                  + timers_set (trace (state_of (syncData_restart parse t e)))\<rparr>)
      else None)"

text \<open>
  The throttled program:
  \<^verbatim>\<open>while (true) { await syncData(...); logInfo(...); await sleep(2 * 60 * 60 * 1000); }\<close>
  where \<^verbatim>\<open>syncData\<close> catches every error itself: whatever the responses, the pass
  \<open>syncData_throttled parse t e\<close> returns, and no timer but the loop's own is set.
\<close>

fun step_throttled :: "decoder \<Rightarrow> string \<Rightarrow> sched \<Rightarrow> happening \<Rightarrow> sched option" where
  "step_throttled parse t s (MainPassEnds e) =
     (if main_at s = AwaitingPass then Some (s\<lparr>main_at := WaitingTimer (2 * 60 * 60 * 1000)\<rparr>)
      else None)"
| "step_throttled parse t s MainTimerFires =
     (case main_at s of
        WaitingTimer ms \<Rightarrow> Some (s\<lparr>main_at := AwaitingPass\<rparr>)
      | _ \<Rightarrow> None)"
| "step_throttled parse t s h = None"

text \<open>
  The differential program: the loop is inside \<^verbatim>\<open>syncData\<close>,
  \<^verbatim>\<open>while (true) { try { ...; if (totalDocs === 0) { ...; return; } ... }
     catch (error) { ... } await sleep(60000); }\<close>.
  A pass that does not end has no end to happen.
\<close>

fun step_diff :: "decoder \<Rightarrow> string \<Rightarrow> sched \<Rightarrow> happening \<Rightarrow> sched option" where
  "step_diff parse t s (MainPassEnds e) =
     (if main_at s = AwaitingPass then
        (case pass_diff parse t e of
           None \<Rightarrow> None
         | Some (ReturnedEmpty st) \<Rightarrow> Some (s\<lparr>main_at := Exited\<rparr>)
         | Some (Completed st) \<Rightarrow> Some (s\<lparr>main_at := WaitingTimer 60000\<rparr>)
         | Some (Caught st) \<Rightarrow> Some (s\<lparr>main_at := WaitingTimer 60000\<rparr>))
      else None)"
| "step_diff parse t s MainTimerFires =
     (case main_at s of
        WaitingTimer ms \<Rightarrow> Some (s\<lparr>main_at := AwaitingPass\<rparr>)
      | _ \<Rightarrow> None)"
| "step_diff parse t s h = None"

fun run :: "(sched \<Rightarrow> happening \<Rightarrow> sched option) \<Rightarrow> sched \<Rightarrow> happening list \<Rightarrow> sched option" where
  "run step s [] = Some s"
| "run step s (h # hs) = (case step s h of None \<Rightarrow> None | Some s' \<Rightarrow> run step s' hs)"

text \<open>A source without documents, every call answered without error.\<close>

definition env_empty :: env where
  "env_empty = env_of [] [] (\<lambda>n i. Resolved accepted)"

section \<open>The target collection\<close>

text \<open>
  Modelled from the spec: the target cluster and its bulk write are not part of the
  repository. The glossary says of an upsert that it "inserts a document if absent or
  updates it in place if present, keyed by identifier"; so an index action stores its
  source under the index and identifier it names, replacing what was stored there. A
  request line of another kind is not modelled: the request has no effect from there on.
\<close>

type_synonym collection = "string \<times> string \<Rightarrow> fields option"

fun bulkWrite :: "operation list \<Rightarrow> collection \<Rightarrow> collection" where
  "bulkWrite (IndexAction index docId # SourceBody source # rest) m =
     bulkWrite rest (m((index, docId) \<mapsto> source))"
| "bulkWrite ops m = m"



section \<open>Auxiliary functions for the injectivity of the serialization\<close>










section \<open>Properties of the retry loops\<close>

lemma sleeps_append [simp]: "sleeps (xs @ ys) = sleeps xs @ sleeps ys"
  by (simp add: sleeps_def)

lemma bulk_calls_append [simp]: "bulk_calls (xs @ ys) = bulk_calls xs @ bulk_calls ys"
  by (simp add: bulk_calls_def)

lemma logged_append [simp]: "logged (xs @ ys) = logged xs @ logged ys"
  by (simp add: logged_def)

lemma trace_tally_errors:
  "trace (tally_errors resp st) =
     trace st @ (if errors resp then [LogError (BulkHadErrors (index_errors (items resp)))] else [])"
  by (simp add: tally_errors_def emit_def)

lemma throttled_unroll:
  "(\<forall>i<k. \<exists>f. bulkN (r + i) = Rejected f) \<Longrightarrow> r + k \<le> MAX_RETRIES \<Longrightarrow>
   bulk_retry_throttled bulkN ops r st =
   bulk_retry_throttled bulkN ops (r + k)
     (st\<lparr>trace := trace st @ attempts ops r (delay st) k, delay := raised (delay st) k\<rparr>)"
proof (induction k arbitrary: r st)
  case 0
  then show ?case by simp
next
  case (Suc k)
  from Suc.prems(1) obtain f where f: "bulkN r = Rejected f" by force
  have lt: "r < MAX_RETRIES" using Suc.prems(2) by simp
  let ?st' = "(emit (Sleep (delay (emit (BulkCall ops) st)))
                  (emit (LogError (BulkInsertFailed (r + 1) MAX_RETRIES)) (emit (BulkCall ops) st)))
                 \<lparr>delay := min (delay (emit (BulkCall ops) st) * 2) MAX_DELAY\<rparr>"
  have step: "bulk_retry_throttled bulkN ops r st = bulk_retry_throttled bulkN ops (r + 1) ?st'"
    using f lt by (subst bulk_retry_throttled.simps) (simp add: Let_def)
  have "\<forall>i<k. \<exists>f. bulkN (r + 1 + i) = Rejected f"
    using Suc.prems(1) by (metis Suc_eq_plus1 add_Suc_shift Suc_less_eq)
  moreover have "r + 1 + k \<le> MAX_RETRIES" using Suc.prems(2) by simp
  ultimately have "bulk_retry_throttled bulkN ops (r + 1) ?st' =
      bulk_retry_throttled bulkN ops (r + 1 + k)
       (?st'\<lparr>trace := trace ?st' @ attempts ops (r + 1) (delay ?st') k,
             delay := raised (delay ?st') k\<rparr>)"
    by (rule Suc.IH)
  then show ?case unfolding step by (simp add: emit_def)
qed

lemma sleeps_attempts: "sleeps (attempts ops r d k) = backoff d k"
  by (induction k arbitrary: r d) (simp_all add: sleeps_def)

lemma bulk_calls_attempts: "bulk_calls (attempts ops r d k) = replicate k ops"
  by (induction k arbitrary: r d) (simp_all add: bulk_calls_def)

lemma logged_attempts:
  "logged (attempts ops r d k) = map (\<lambda>j. BulkInsertFailed (r + j + 1) MAX_RETRIES) [0..<k]"
proof (induction k arbitrary: r d)
  case 0
  then show ?case by (simp add: logged_def)
next
  case (Suc k)
  have "logged (attempts ops r d (Suc k)) =
     BulkInsertFailed (r + 1) MAX_RETRIES # logged (attempts ops (r + 1) (min (d * 2) MAX_DELAY) k)"
    by (simp add: logged_def)
  also have "\<dots> = BulkInsertFailed (r + 1) MAX_RETRIES
      # map (\<lambda>j. BulkInsertFailed (r + 1 + j + 1) MAX_RETRIES) [0..<k]"
    by (simp add: Suc.IH)
  finally show ?case
    by (simp add: upt_rec[of 0] map_Suc_upt[symmetric] del: upt_Suc)
qed

lemma min_cap: "1 \<le> (c::nat) \<Longrightarrow> min (min a M * c) M = min (a * c) M"
proof (cases "a \<le> M")
  case True
  then show ?thesis by (simp add: min_def)
next
  case False
  assume c: "1 \<le> c"
  have "M \<le> M * c" using c by simp
  moreover have "M \<le> a * c" using False c
    by (metis le_trans linorder_le_cases mult.right_neutral mult_le_mono2)
  ultimately have "min (M * c) M = M" and "min (a * c) M = M" by simp_all
  moreover have "min a M = M" using False by simp
  ultimately show ?thesis by simp
qed

lemma backoff_closed:
  "d \<le> MAX_DELAY \<Longrightarrow> backoff d k = map (\<lambda>j. min (d * 2 ^ j) MAX_DELAY) [0..<k]"
proof (induction k arbitrary: d)
  case 0
  then show ?case by simp
next
  case (Suc k)
  have "backoff (min (d * 2) MAX_DELAY) k =
      map (\<lambda>j. min (min (d * 2) MAX_DELAY * 2 ^ j) MAX_DELAY) [0..<k]"
    by (rule Suc.IH) simp
  also have "\<dots> = map (\<lambda>j. min (d * 2 ^ Suc j) MAX_DELAY) [0..<k]"
    by (simp add: min_cap mult.assoc)
  finally show ?case using Suc.prems
    by (simp add: upt_rec[of 0] map_Suc_upt[symmetric] del: upt_Suc)
qed

lemma throttled_waits:
  assumes "\<forall>i<k. \<exists>f. bulkN i = Rejected f" and "k \<le> MAX_RETRIES"
    and "k < MAX_RETRIES \<longrightarrow> (\<exists>resp. bulkN k = Resolved resp)"
  shows "sleeps (trace (bulk_retry_throttled bulkN ops 0 st)) = sleeps (trace st) @ backoff (delay st) k"
proof -
  let ?st = "st\<lparr>trace := trace st @ attempts ops 0 (delay st) k, delay := raised (delay st) k\<rparr>"
  have unroll: "bulk_retry_throttled bulkN ops 0 st = bulk_retry_throttled bulkN ops (0 + k) ?st"
    by (rule throttled_unroll) (use assms in simp_all)
  have "sleeps (trace (bulk_retry_throttled bulkN ops k ?st)) = sleeps (trace ?st)"
  proof (cases "k < MAX_RETRIES")
    case True
    with assms(3) obtain resp where "bulkN k = Resolved resp" by blast
    with True show ?thesis
      by (subst bulk_retry_throttled.simps)
         (simp add: Let_def trace_tally_errors emit_def sleeps_def)
  next
    case False
    then show ?thesis by (subst bulk_retry_throttled.simps) simp
  qed
  then show ?thesis using unroll by (simp add: sleeps_attempts)
qed

lemma restart_waits:
  assumes "\<forall>i<k. \<exists>f. bulkN i = Rejected f" and "k \<le> 3"
    and "k < 3 \<longrightarrow> (\<exists>resp. bulkN k = Resolved resp)"
  shows "sleeps (trace (state_of (bulk_retry_restart bulkN ops n 3 st))) =
         sleeps (trace st) @ map (\<lambda>j. (j + 1) * 1000) [0..<min k 2]"
proof -
  consider "k = 0" | "k = Suc 0" | "k = Suc (Suc 0)" | "k = Suc (Suc (Suc 0))"
    using assms(2) by (auto simp: numeral_3_eq_3 le_Suc_eq)
  then show ?thesis
  proof cases
    case 1
    with assms(3) obtain resp where "bulkN 0 = Resolved resp" by auto
    then show ?thesis using 1
      by (simp add: numeral_3_eq_3 trace_tally_errors emit_def sleeps_def)
  next
    case 2
    with assms obtain f resp where "bulkN 0 = Rejected f" "bulkN (Suc 0) = Resolved resp"
      by (auto simp: numeral_3_eq_3)
    then show ?thesis using 2
      by (simp add: numeral_3_eq_3 numeral_2_eq_2 trace_tally_errors emit_def sleeps_def)
  next
    case 3
    with assms obtain f f' resp where
      "bulkN 0 = Rejected f" "bulkN (Suc 0) = Rejected f'" "bulkN (Suc (Suc 0)) = Resolved resp"
      by (metis lessI less_SucI numeral_3_eq_3)
    then show ?thesis using 3
      by (simp add: numeral_3_eq_3 numeral_2_eq_2 trace_tally_errors emit_def sleeps_def)
  next
    case 4
    with assms obtain f f' f'' where
      "bulkN 0 = Rejected f" "bulkN (Suc 0) = Rejected f'" "bulkN (Suc (Suc 0)) = Rejected f''"
      by (metis lessI less_SucI)
    then show ?thesis using 4
      by (simp add: numeral_3_eq_3 numeral_2_eq_2 emit_def sleeps_def)
  qed
qed

text \<open>
  C3, amended. A retry loop waits after each failed attempt and only then raises the delay.
  In the throttled program, when the bulk call of a batch fails \<open>k\<close> times in a row
  (\<open>k \<le> MAX_RETRIES\<close>), the waits of that batch are
  \<open>min (d * 2 ^ j) MAX_DELAY\<close> for \<open>j = 0, \<dots>, k - 1\<close>, where \<open>d\<close> is the delay
  with which the batch starts (\<open>BASE_DELAY\<close> until the first failure of the pass): the
  wait after the \<open>k\<close>-th failure has exponent \<open>k - 1\<close>, not \<open>k\<close>. In the restarting
  program (three attempts) the wait after the \<open>k\<close>-th failure is \<open>k * 1000\<close> ms for
  \<open>k < 3\<close>, and the third failure is not followed by a wait.
\<close>

theorem retry_waits:
  assumes "\<forall>i<k. \<exists>f. bulkN i = Rejected f"
  shows "(k \<le> MAX_RETRIES \<and> (k < MAX_RETRIES \<longrightarrow> (\<exists>resp. bulkN k = Resolved resp))
            \<and> delay st \<le> MAX_DELAY \<longrightarrow>
          sleeps (trace (bulk_retry_throttled bulkN ops 0 st)) =
            sleeps (trace st) @ map (\<lambda>j. min (delay st * 2 ^ j) MAX_DELAY) [0..<k])
       \<and> (k \<le> 3 \<and> (k < 3 \<longrightarrow> (\<exists>resp. bulkN k = Resolved resp)) \<longrightarrow>
          sleeps (trace (state_of (bulk_retry_restart bulkN ops n 3 s))) =
            sleeps (trace s) @ map (\<lambda>j. (j + 1) * 1000) [0..<min k 2])"
  using assms throttled_waits [of k bulkN ops st] restart_waits [of k bulkN ops n s]
  by (simp add: backoff_closed)

theorem retry_waits_witness:
  "failing_first 2 0 = Rejected (Failure None) \<and> failing_first 2 1 = Rejected (Failure None)
   \<and> 2 \<le> MAX_RETRIES \<and> failing_first 2 2 = Resolved accepted
   \<and> delay init_throttled \<le> MAX_DELAY
   \<and> sleeps (trace (bulk_retry_throttled (failing_first 2) [] 0 init_throttled)) = [10000, 20000]
   \<and> sleeps (trace (state_of (bulk_retry_restart (failing_first 2) [] 1 3 init))) = [1000, 2000]"
proof -
  have h: "\<forall>i<2. \<exists>f. failing_first 2 i = Rejected f"
    by (simp add: failing_first_def)
  have r: "\<exists>resp. failing_first 2 2 = Resolved resp"
    by (simp add: failing_first_def)
  have m: "(2::nat) \<le> MAX_RETRIES" "(2::nat) < MAX_RETRIES" "delay init_throttled \<le> MAX_DELAY"
    by (simp_all add: MAX_RETRIES_def MAX_DELAY_def BASE_DELAY_def init_throttled_def)
  have u: "[0..<2] = [0, Suc 0]"
    by (simp add: upt_rec)
  note w = retry_waits [OF h, where ops = "[]" and st = init_throttled and n = 1 and s = init]
  have a: "sleeps (trace (bulk_retry_throttled (failing_first 2) [] 0 init_throttled)) =
      sleeps (trace init_throttled) @ map (\<lambda>j. min (delay init_throttled * 2 ^ j) MAX_DELAY) [0..<2]"
    using w r m by blast
  have b: "sleeps (trace (state_of (bulk_retry_restart (failing_first 2) [] 1 3 init))) =
      sleeps (trace init) @ map (\<lambda>j. (j + 1) * 1000) [0..<min 2 2]"
    using w r by simp
  have a': "sleeps (trace init_throttled) @ map (\<lambda>j. min (delay init_throttled * 2 ^ j) MAX_DELAY) [0..<2]
      = [10000, 20000]"
    by (simp add: u init_throttled_def BASE_DELAY_def MAX_DELAY_def sleeps_def)
  have b': "sleeps (trace init) @ map (\<lambda>j. (j + 1) * 1000) [0..<min 2 2] = [1000, 2000]"
    by (simp add: u init_def sleeps_def)
  have c: "failing_first 2 0 = Rejected (Failure None)" "failing_first 2 1 = Rejected (Failure None)"
    "failing_first 2 2 = Resolved accepted"
    by (simp_all add: failing_first_def)
  show ?thesis
    using a b c m unfolding a' b' by blast
qed

text \<open>
  The claim as stated fails on the first failure of a pass: the wait before the second
  attempt is \<open>BASE_DELAY\<close>, while the claimed formula gives twice that.
\<close>

theorem retry_waits_counterexample:
  "sleeps (trace (bulk_retry_throttled (failing_first 1) [] 0 init_throttled)) = [10000]
   \<and> min (BASE_DELAY * 2 ^ 1) MAX_DELAY = 20000"
  by (simp add: bulk_retry_throttled.simps failing_first_def accepted_def init_throttled_def
      BASE_DELAY_def MAX_DELAY_def MAX_RETRIES_def tally_errors_def emit_def sleeps_def)

section \<open>Properties of the unconditional transformer\<close>

lemma operations_eq:
  "operations parse t docs st =
     (concat (map (\<lambda>doc. [IndexAction t (doc_id doc), SourceBody (written_source parse doc)]) docs),
      st\<lparr>trace := trace st @ map (\<lambda>doc. LogError (ParseFailed (doc_id doc)))
                               (filter (undecodable parse) docs),
         failedDocs := failedDocs st + length (filter (undecodable parse) docs)\<rparr>)"
proof (induction docs arbitrary: st)
  case Nil
  then show ?case by simp
next
  case (Cons doc docs)
  show ?case
  proof (cases "decode_payload parse (doc_source doc)")
    case None
    then show ?thesis
      by (simp add: Cons.IH undecodable_def written_source_def emit_def)
  next
    case (Some decoded)
    then show ?thesis
      by (simp add: Cons.IH undecodable_def written_source_def)
  qed
qed

lemma length_concat_pairs: "length (concat (map (\<lambda>x. [f x, g x]) xs)) = 2 * length xs"
  by (induction xs) simp_all

text \<open>
  C1. In the restarting and in the throttled program a record whose payload text fails to
  decode is counted as failed, but it is not excluded: the bulk request still carries its
  index action and its source, with the payload left as the undecoded text. The request
  always has one action and one source per record of the page.
\<close>

theorem undecodable_record_is_sent:
  assumes "doc \<in> set documents" and "undecodable parse doc"
  shows "IndexAction t (doc_id doc) \<in> set (fst (operations parse t documents st))
       \<and> SourceBody (doc_source doc) \<in> set (fst (operations parse t documents st))
       \<and> length (fst (operations parse t documents st)) = 2 * length documents
       \<and> failedDocs (snd (operations parse t documents st)) =
           failedDocs st + length (filter (undecodable parse) documents)"
proof -
  have "written_source parse doc = doc_source doc"
    using assms(2) by (simp add: written_source_def undecodable_def)
  then have "SourceBody (doc_source doc) \<in>
      set (concat (map (\<lambda>doc. [IndexAction t (doc_id doc), SourceBody (written_source parse doc)])
             documents))"
    using assms(1) by force
  moreover have "IndexAction t (doc_id doc) \<in>
      set (concat (map (\<lambda>doc. [IndexAction t (doc_id doc), SourceBody (written_source parse doc)])
             documents))"
    using assms(1) by force
  ultimately show ?thesis
    by (simp add: operations_eq length_concat_pairs del: set_concat)
qed

theorem undecodable_record_is_sent_witness:
  "operations decode_sample ''target'' [doc_a, doc_b, doc_c] init =
     ([IndexAction ''target'' ''a'', SourceBody [(''jsonPayload'', JArr [JNum 1])],
       IndexAction ''target'' ''b'', SourceBody [(''jsonPayload'', JArr [JNum 2])],
       IndexAction ''target'' ''c'', SourceBody [(''jsonPayload'', JStr ''{oops'')]],
      \<lparr>processedDocs = 0, failedDocs = 1, trace = [LogError (ParseFailed ''c'')]\<rparr>)
   \<and> IndexAction ''target'' (doc_id doc_c)
        \<in> set (fst (operations decode_sample ''target'' [doc_a, doc_b, doc_c] init))
   \<and> SourceBody (doc_source doc_c)
        \<in> set (fst (operations decode_sample ''target'' [doc_a, doc_b, doc_c] init))"
proof -
  have m: "doc_c \<in> set [doc_a, doc_b, doc_c]"
    by simp
  have u: "undecodable decode_sample doc_c"
    by (simp add: undecodable_def decode_payload_def decode_sample_def doc_c_def)
  have e: "operations decode_sample ''target'' [doc_a, doc_b, doc_c] init =
     ([IndexAction ''target'' ''a'', SourceBody [(''jsonPayload'', JArr [JNum 1])],
       IndexAction ''target'' ''b'', SourceBody [(''jsonPayload'', JArr [JNum 2])],
       IndexAction ''target'' ''c'', SourceBody [(''jsonPayload'', JStr ''{oops'')]],
      \<lparr>processedDocs = 0, failedDocs = 1, trace = [LogError (ParseFailed ''c'')]\<rparr>)"
    by (simp add: decode_payload_def decode_sample_def doc_a_def doc_b_def doc_c_def init_def
        emit_def)
  from undecodable_record_is_sent [OF m u, of "''target''" init] e
  show ?thesis by (simp del: operations.simps)
qed

section \<open>Exhausted retries\<close>

lemma restart_exhausted:
  assumes "\<forall>i<3. \<exists>f. bulkN i = Rejected f"
  shows "\<exists>f. bulkN 2 = Rejected f \<and> bulk_retry_restart bulkN ops n 3 st =
     Threw f (st\<lparr>trace := trace st @ [BulkCall ops, LogError (BulkRetrying 2), Sleep 1000,
                                     BulkCall ops, LogError (BulkRetrying 1), Sleep 2000,
                                     BulkCall ops, LogError BulkAllRetriesFailed],
                 failedDocs := failedDocs st + n\<rparr>)"
proof -
  from assms obtain f0 f1 f2 where
    "bulkN 0 = Rejected f0" "bulkN (Suc 0) = Rejected f1" "bulkN (Suc (Suc 0)) = Rejected f2"
    by (metis numeral_3_eq_3 lessI less_SucI)
  then show ?thesis
    by (simp add: numeral_3_eq_3 numeral_2_eq_2 emit_def)
qed

lemma retry_throttled_done: "bulk_retry_throttled bulkN ops MAX_RETRIES st = st"
  by (subst bulk_retry_throttled.simps) simp

lemma throttled_exhausted:
  assumes "\<forall>i<MAX_RETRIES. \<exists>f. bulkN i = Rejected f"
  shows "bulk_retry_throttled bulkN ops 0 st =
      st\<lparr>trace := trace st @ attempts ops 0 (delay st) MAX_RETRIES,
         delay := raised (delay st) MAX_RETRIES\<rparr>"
proof -
  have "bulk_retry_throttled bulkN ops 0 st =
   bulk_retry_throttled bulkN ops (0 + MAX_RETRIES)
     (st\<lparr>trace := trace st @ attempts ops 0 (delay st) MAX_RETRIES,
         delay := raised (delay st) MAX_RETRIES\<rparr>)"
    by (rule throttled_unroll) (use assms in simp_all)
  then show ?thesis by (simp add: retry_throttled_done)
qed

lemma pages_restart_abort:
  assumes "\<forall>i<3. \<exists>f. bulkE n i = Rejected f"
  shows "\<exists>f. bulkE n 2 = Rejected f \<and>
      pages_restart parse t bulkE n (d # ds) rs st =
      Threw f
       (let (ops, st1) = operations parse t (d # ds)
                           (st\<lparr>processedDocs := processedDocs st + length (d # ds)\<rparr>)
        in st1\<lparr>trace := trace st1 @ [BulkCall ops, LogError (BulkRetrying 2), Sleep 1000,
                                       BulkCall ops, LogError (BulkRetrying 1), Sleep 2000,
                                       BulkCall ops, LogError BulkAllRetriesFailed],
                failedDocs := failedDocs st1 + length (d # ds)\<rparr>)"
proof -
  obtain ops st1 where o: "operations parse t (d # ds)
       (st\<lparr>processedDocs := processedDocs st + length (d # ds)\<rparr>) = (ops, st1)"
    by (cases "operations parse t (d # ds)
                 (st\<lparr>processedDocs := processedDocs st + length (d # ds)\<rparr>)")
  from restart_exhausted [OF assms, of ops "length (d # ds)" st1]
  obtain f where f: "bulkE n 2 = Rejected f" and
    r: "bulk_retry_restart (bulkE n) ops (length (d # ds)) 3 st1 =
     Threw f (st1\<lparr>trace := trace st1 @ [BulkCall ops, LogError (BulkRetrying 2), Sleep 1000,
                                     BulkCall ops, LogError (BulkRetrying 1), Sleep 2000,
                                     BulkCall ops, LogError BulkAllRetriesFailed],
                 failedDocs := failedDocs st1 + length (d # ds)\<rparr>)"
    by blast
  have "batch_restart parse t (bulkE n) (d # ds) st =
      bulk_retry_restart (bulkE n) ops (length (d # ds)) 3 st1"
    using o by (simp add: batch_restart_def Let_def del: operations.simps bulk_retry_restart.simps)
  then show ?thesis using f r o
    by (simp del: operations.simps bulk_retry_restart.simps)
qed

lemma batch_throttled_lost:
  assumes "\<forall>i<MAX_RETRIES. \<exists>f. bulkN i = Rejected f"
  shows "batch_throttled parse t bulkN docs s =
      (let (ops, st1) = operations parse t docs s;
           d' = raised (delay st1) MAX_RETRIES
       in st1\<lparr>trace := trace st1 @ attempts ops 0 (delay st1) MAX_RETRIES @ [Sleep d'],
              delay := d', processedDocs := processedDocs st1 + length docs\<rparr>)"
  by (simp add: batch_throttled_def throttled_exhausted [OF assms] Let_def emit_def
      split: prod.splits del: operations.simps)

lemma operations_doc_b:
  "operations decode_sample ''target'' [doc_b] st =
      ([IndexAction ''target'' ''b'', SourceBody [(''jsonPayload'', JArr [JNum 2])]], st)"
  by (simp add: decode_payload_def doc_b_def)

lemma provision_present:
  "indexExists e = Resolved True \<Longrightarrow> provision e st = Returned (emit (Call ''indices.exists'') st)"
  by (simp add: provision_def)

lemma pages_restart_doc_b:
  "pages_restart decode_sample ''target'' (\<lambda>n. always_rejected) 0 [doc_b] rs st =
     Threw (Failure None)
       (st\<lparr>processedDocs := processedDocs st + 1, failedDocs := failedDocs st + 1,
        trace := trace st @
          [BulkCall [IndexAction ''target'' ''b'', SourceBody [(''jsonPayload'', JArr [JNum 2])]],
           LogError (BulkRetrying 2), Sleep 1000,
           BulkCall [IndexAction ''target'' ''b'', SourceBody [(''jsonPayload'', JArr [JNum 2])]],
           LogError (BulkRetrying 1), Sleep 2000,
           BulkCall [IndexAction ''target'' ''b'', SourceBody [(''jsonPayload'', JArr [JNum 2])]],
           LogError BulkAllRetriesFailed]\<rparr>)"
proof -
  have h3: "\<forall>i<3. \<exists>f. always_rejected i = Rejected f"
    by (simp add: always_rejected_def)
  from pages_restart_abort [of "\<lambda>n. always_rejected" 0 decode_sample "''target''" doc_b "[]" rs st,
      OF h3]
  show ?thesis
    by (simp add: operations_doc_b always_rejected_def del: operations.simps pages_restart.simps)
qed

text \<open>
  C4, amended. When the bulk call of a batch fails at every allowed attempt, no further
  attempt is made for that batch and the failure is logged. In the restarting program
  (three attempts) all documents of the batch are then counted as failed and the error is
  thrown again: the pass ends there, without a scroll call. In the throttled program
  (\<open>MAX_RETRIES\<close> attempts) the loop just ends: the page is counted as processed and the
  pass goes on with the next page.
\<close>

theorem retries_exhausted:
  "((\<forall>i<3. \<exists>f. bulkE n i = Rejected f) \<longrightarrow>
      (\<exists>f. bulkE n 2 = Rejected f \<and>
        pages_restart parse t bulkE n (d # ds) rs st =
        Threw f
         (let (ops, st1) = operations parse t (d # ds)
                             (st\<lparr>processedDocs := processedDocs st + length (d # ds)\<rparr>)
          in st1\<lparr>trace := trace st1 @ [BulkCall ops, LogError (BulkRetrying 2), Sleep 1000,
                                         BulkCall ops, LogError (BulkRetrying 1), Sleep 2000,
                                         BulkCall ops, LogError BulkAllRetriesFailed],
                  failedDocs := failedDocs st1 + length (d # ds)\<rparr>)))
   \<and> ((\<forall>i<MAX_RETRIES. \<exists>f. bulkE n i = Rejected f) \<longrightarrow>
      (let (ops, st1) = operations parse t (d # ds) s;
           s2 = batch_throttled parse t (bulkE n) (d # ds) s
       in bulk_calls (trace s2) = bulk_calls (trace s) @ replicate MAX_RETRIES ops
        \<and> logged (trace s2) =
            logged (trace st1) @ map (\<lambda>j. BulkInsertFailed (j + 1) MAX_RETRIES) [0..<MAX_RETRIES]
        \<and> processedDocs s2 = processedDocs s + length (d # ds)
        \<and> pages_throttled parse t bulkE n (d # ds) (Resolved (Some nxt) # rs) s =
            pages_throttled parse t bulkE (n + 1) nxt rs (emit ScrollCall s2)))"
proof (intro conjI impI)
  assume "\<forall>i<3. \<exists>f. bulkE n i = Rejected f"
  then show "\<exists>f. bulkE n 2 = Rejected f \<and>
        pages_restart parse t bulkE n (d # ds) rs st =
        Threw f
         (let (ops, st1) = operations parse t (d # ds)
                             (st\<lparr>processedDocs := processedDocs st + length (d # ds)\<rparr>)
          in st1\<lparr>trace := trace st1 @ [BulkCall ops, LogError (BulkRetrying 2), Sleep 1000,
                                         BulkCall ops, LogError (BulkRetrying 1), Sleep 2000,
                                         BulkCall ops, LogError BulkAllRetriesFailed],
                  failedDocs := failedDocs st1 + length (d # ds)\<rparr>)"
    by (rule pages_restart_abort)
next
  assume a: "\<forall>i<MAX_RETRIES. \<exists>f. bulkE n i = Rejected f"
  have p: "pages_throttled parse t bulkE n (d # ds) (Resolved (Some nxt) # rs) s =
      pages_throttled parse t bulkE (n + 1) nxt rs
        (emit ScrollCall (batch_throttled parse t (bulkE n) (d # ds) s))"
    by (simp add: Let_def)
  have b: "bulk_calls (map (\<lambda>doc. LogError (ParseFailed (doc_id doc))) xs) = []" for xs :: "hit list"
    by (induction xs) (simp_all add: bulk_calls_def)
  show "let (ops, st1) = operations parse t (d # ds) s;
           s2 = batch_throttled parse t (bulkE n) (d # ds) s
       in bulk_calls (trace s2) = bulk_calls (trace s) @ replicate MAX_RETRIES ops
        \<and> logged (trace s2) =
            logged (trace st1) @ map (\<lambda>j. BulkInsertFailed (j + 1) MAX_RETRIES) [0..<MAX_RETRIES]
        \<and> processedDocs s2 = processedDocs s + length (d # ds)
        \<and> pages_throttled parse t bulkE n (d # ds) (Resolved (Some nxt) # rs) s =
            pages_throttled parse t bulkE (n + 1) nxt rs (emit ScrollCall s2)"
    unfolding p batch_throttled_lost [OF a] operations_eq
    by (simp add: Let_def bulk_calls_attempts logged_attempts b)
       (simp add: bulk_calls_def logged_def)
qed

theorem retries_exhausted_witness:
  "pages_restart decode_sample ''target'' (\<lambda>n. always_rejected) 0 [doc_b] [Resolved (Some [doc_a])] init =
     Threw (Failure None)
       \<lparr>processedDocs = 1, failedDocs = 1,
        trace = [BulkCall [IndexAction ''target'' ''b'', SourceBody [(''jsonPayload'', JArr [JNum 2])]],
                 LogError (BulkRetrying 2), Sleep 1000,
                 BulkCall [IndexAction ''target'' ''b'', SourceBody [(''jsonPayload'', JArr [JNum 2])]],
                 LogError (BulkRetrying 1), Sleep 2000,
                 BulkCall [IndexAction ''target'' ''b'', SourceBody [(''jsonPayload'', JArr [JNum 2])]],
                 LogError BulkAllRetriesFailed]\<rparr>
   \<and> bulk_calls (trace (batch_throttled decode_sample ''target'' (lost_first 0) [doc_b] init_throttled)) =
       replicate 5 [IndexAction ''target'' ''b'', SourceBody [(''jsonPayload'', JArr [JNum 2])]]
   \<and> pages_throttled decode_sample ''target'' lost_first 0 [doc_b] [Resolved (Some [doc_a])] init_throttled =
       pages_throttled decode_sample ''target'' lost_first 1 [doc_a] []
         (emit ScrollCall (batch_throttled decode_sample ''target'' (lost_first 0) [doc_b] init_throttled))"
proof -
  have h3: "\<forall>i<3. \<exists>f. always_rejected i = Rejected f"
    by (simp add: always_rejected_def)
  have h5: "\<forall>i<MAX_RETRIES. \<exists>f. lost_first 0 i = Rejected f"
    by (simp add: lost_first_def)
  have o: "operations decode_sample ''target'' [doc_b] st =
      ([IndexAction ''target'' ''b'', SourceBody [(''jsonPayload'', JArr [JNum 2])]], st)" for st :: "'a counters_scheme"
    by (simp add: decode_payload_def doc_b_def)
  have r: "always_rejected 2 = Rejected f \<Longrightarrow> f = Failure None" for f
    by (simp add: always_rejected_def)
  from retries_exhausted [where bulkE = "\<lambda>n. always_rejected" and n = 0 and parse = decode_sample
      and t = "''target''" and d = doc_b and ds = "[]" and rs = "[Resolved (Some [doc_a])]"
      and st = init and s = init_throttled and nxt = "[]"]
  have 1: "pages_restart decode_sample ''target'' (\<lambda>n. always_rejected) 0 [doc_b] [Resolved (Some [doc_a])] init =
     Threw (Failure None)
       \<lparr>processedDocs = 1, failedDocs = 1,
        trace = [BulkCall [IndexAction ''target'' ''b'', SourceBody [(''jsonPayload'', JArr [JNum 2])]],
                 LogError (BulkRetrying 2), Sleep 1000,
                 BulkCall [IndexAction ''target'' ''b'', SourceBody [(''jsonPayload'', JArr [JNum 2])]],
                 LogError (BulkRetrying 1), Sleep 2000,
                 BulkCall [IndexAction ''target'' ''b'', SourceBody [(''jsonPayload'', JArr [JNum 2])]],
                 LogError BulkAllRetriesFailed]\<rparr>"
    using h3 r by (auto simp add: o init_def simp del: operations.simps pages_restart.simps)
  from retries_exhausted [where bulkE = lost_first and n = 0 and parse = decode_sample
      and t = "''target''" and d = doc_b and ds = "[]" and rs = "[]"
      and st = init and s = init_throttled and nxt = "[doc_a]"]
  have 2: "bulk_calls (trace (batch_throttled decode_sample ''target'' (lost_first 0) [doc_b] init_throttled)) =
       replicate 5 [IndexAction ''target'' ''b'', SourceBody [(''jsonPayload'', JArr [JNum 2])]]"
    and 3: "pages_throttled decode_sample ''target'' lost_first 0 [doc_b] [Resolved (Some [doc_a])] init_throttled =
       pages_throttled decode_sample ''target'' lost_first 1 [doc_a] []
         (emit ScrollCall (batch_throttled decode_sample ''target'' (lost_first 0) [doc_b] init_throttled))"
    using h5
    by (simp_all add: o Let_def init_throttled_def bulk_calls_def MAX_RETRIES_def
        del: operations.simps pages_throttled.simps)
  show ?thesis using 1 2 3 by blast
qed

text \<open>
  The claim as stated fails in both programs. In the restarting program the pass does not
  go on to the next page (record \<open>a\<close> of the second page is never written). In the
  throttled program the documents of the lost batch are not counted as failed.
\<close>

theorem retries_exhausted_counterexample:
  "syncData_restart decode_sample ''target'' env_lost =
     Threw (Failure None)
       \<lparr>processedDocs = 1, failedDocs = 1,
        trace = [Call ''indices.exists'', Call ''count'', Call ''search'',
                 BulkCall [IndexAction ''target'' ''b'', SourceBody [(''jsonPayload'', JArr [JNum 2])]],
                 LogError (BulkRetrying 2), Sleep 1000,
                 BulkCall [IndexAction ''target'' ''b'', SourceBody [(''jsonPayload'', JArr [JNum 2])]],
                 LogError (BulkRetrying 1), Sleep 2000,
                 BulkCall [IndexAction ''target'' ''b'', SourceBody [(''jsonPayload'', JArr [JNum 2])]],
                 LogError BulkAllRetriesFailed, LogError SyncFailed]\<rparr>
   \<and> failedDocs (batch_throttled decode_sample ''target'' always_rejected [doc_b] init_throttled) = 0"
proof -
  have h5: "\<forall>i<MAX_RETRIES. \<exists>f. always_rejected i = Rejected f"
    by (simp add: always_rejected_def)
  have "failedDocs (batch_throttled decode_sample ''target'' always_rejected [doc_b] init_throttled) = 0"
    unfolding batch_throttled_lost [OF h5] operations_doc_b
    by (simp add: init_throttled_def Let_def)
  moreover have "syncData_restart decode_sample ''target'' env_lost =
     Threw (Failure None)
       \<lparr>processedDocs = 1, failedDocs = 1,
        trace = [Call ''indices.exists'', Call ''count'', Call ''search'',
                 BulkCall [IndexAction ''target'' ''b'', SourceBody [(''jsonPayload'', JArr [JNum 2])]],
                 LogError (BulkRetrying 2), Sleep 1000,
                 BulkCall [IndexAction ''target'' ''b'', SourceBody [(''jsonPayload'', JArr [JNum 2])]],
                 LogError (BulkRetrying 1), Sleep 2000,
                 BulkCall [IndexAction ''target'' ''b'', SourceBody [(''jsonPayload'', JArr [JNum 2])]],
                 LogError BulkAllRetriesFailed, LogError SyncFailed]\<rparr>"
    by (simp add: syncData_restart_def provision_present env_lost_def pages_restart_doc_b
        rethrow_def emit_def init_def del: pages_restart.simps)
  ultimately show ?thesis by simp
qed

section \<open>Pacing of the throttled program\<close>

lemma sleeps_simps [simp]:
  "sleeps [] = []"
  "sleeps (Sleep ms # tr) = ms # sleeps tr"
  "sleeps (LogError m # tr) = sleeps tr"
  "sleeps (Call c # tr) = sleeps tr"
  "sleeps (BulkCall ops # tr) = sleeps tr"
  "sleeps (ScrollCall # tr) = sleeps tr"
  "sleeps (ClearScrollCall # tr) = sleeps tr"
  by (simp_all add: sleeps_def)

lemma sleeps_parse_logs [simp]:
  "sleeps (map (\<lambda>doc. LogError (ParseFailed (doc_id doc))) xs) = []"
  by (induction xs) simp_all

lemma paced_tally: "paced (tally_errors resp st) = paced st"
  by (simp add: paced_def tally_errors_def emit_def)

lemma calm_tally: "calm (tally_errors resp st) = calm st"
  by (simp add: calm_def tally_errors_def emit_def)

lemma delay_tally: "delay (tally_errors resp st) = delay st"
  by (simp add: tally_errors_def emit_def)

lemma paced_retry: "paced st \<Longrightarrow> paced (bulk_retry_throttled bulkN ops r st)"
proof (induction bulkN ops r st rule: bulk_retry_throttled.induct)
  case (1 bulkN ops retries st)
  show ?case
  proof (cases "retries < MAX_RETRIES")
    case False
    then show ?thesis using "1.prems" by (subst bulk_retry_throttled.simps) simp
  next
    case True
    show ?thesis
    proof (cases "bulkN retries")
      case (Resolved resp)
      then show ?thesis using True "1.prems"
        by (subst bulk_retry_throttled.simps) (simp add: paced_tally, simp add: paced_def emit_def)
    next
      case (Rejected f)
      let ?st' = "(emit (Sleep (delay (emit (BulkCall ops) st)))
                  (emit (LogError (BulkInsertFailed (retries + 1) MAX_RETRIES)) (emit (BulkCall ops) st)))
                 \<lparr>delay := min (delay (emit (BulkCall ops) st) * 2) MAX_DELAY\<rparr>"
      have "paced ?st'" using "1.prems" by (simp add: paced_def emit_def)
      then have "paced (bulk_retry_throttled bulkN ops (retries + 1) ?st')"
        using "1.IH" [OF True refl Rejected] by simp
      then show ?thesis using True Rejected
        by (subst bulk_retry_throttled.simps) (simp add: Let_def)
    qed
  qed
qed

lemma delay_retry:
  "delay st \<le> MAX_DELAY \<Longrightarrow>
   delay st \<le> delay (bulk_retry_throttled bulkN ops r st) \<and>
   delay (bulk_retry_throttled bulkN ops r st) \<le> MAX_DELAY"
proof (induction bulkN ops r st rule: bulk_retry_throttled.induct)
  case (1 bulkN ops retries st)
  show ?case
  proof (cases "retries < MAX_RETRIES")
    case False
    then have "bulk_retry_throttled bulkN ops retries st = st"
      by (subst bulk_retry_throttled.simps) simp
    then show ?thesis using "1.prems" by simp
  next
    case True
    show ?thesis
    proof (cases "bulkN retries")
      case (Resolved resp)
      then have "bulk_retry_throttled bulkN ops retries st =
          tally_errors resp (emit (BulkCall ops) st)"
        using True by (subst bulk_retry_throttled.simps) (simp add: Let_def)
      then show ?thesis using "1.prems" by (simp add: delay_tally emit_def)
    next
      case (Rejected f)
      let ?st' = "(emit (Sleep (delay (emit (BulkCall ops) st)))
                  (emit (LogError (BulkInsertFailed (retries + 1) MAX_RETRIES)) (emit (BulkCall ops) st)))
                 \<lparr>delay := min (delay (emit (BulkCall ops) st) * 2) MAX_DELAY\<rparr>"
      have d: "delay ?st' \<le> MAX_DELAY" "delay st \<le> delay ?st'"
        using "1.prems" by (simp_all add: emit_def)
      have "delay ?st' \<le> delay (bulk_retry_throttled bulkN ops (retries + 1) ?st') \<and>
            delay (bulk_retry_throttled bulkN ops (retries + 1) ?st') \<le> MAX_DELAY"
        using "1.IH" [OF True refl Rejected] d(1) by simp
      moreover have "bulk_retry_throttled bulkN ops retries st = bulk_retry_throttled bulkN ops (retries + 1) ?st'"
        using True Rejected by (subst bulk_retry_throttled.simps) (simp add: Let_def)
      ultimately show ?thesis using d(2) by (metis order_trans)
    qed
  qed
qed

lemma retry_first_attempt:
  "bulkN 0 = Resolved resp \<Longrightarrow>
   bulk_retry_throttled bulkN ops 0 st = tally_errors resp (emit (BulkCall ops) st)"
  by (subst bulk_retry_throttled.simps) (simp add: MAX_RETRIES_def)

lemma batch_throttled_trace:
  "trace (batch_throttled parse t bulkN docs st) =
     trace (bulk_retry_throttled bulkN (fst (operations parse t docs st)) 0 (snd (operations parse t docs st)))
     @ [Sleep (delay (batch_throttled parse t bulkN docs st))]"
  by (simp add: batch_throttled_def Let_def emit_def case_prod_unfold
      del: operations.simps)

lemma paced_batch: "paced st \<Longrightarrow> paced (batch_throttled parse t bulkN docs st)"
proof -
  assume p: "paced st"
  have "paced (snd (operations parse t docs st))"
    using p by (simp add: operations_eq paced_def)
  then have "paced (bulk_retry_throttled bulkN (fst (operations parse t docs st)) 0 (snd (operations parse t docs st)))"
    by (rule paced_retry)
  then show ?thesis
    by (simp add: batch_throttled_def Let_def emit_def paced_def case_prod_unfold
      del: operations.simps)
qed

lemma calm_batch:
  "calm st \<Longrightarrow> bulkN 0 = Resolved resp \<Longrightarrow> calm (batch_throttled parse t bulkN docs st)"
  by (simp add: batch_throttled_def Let_def operations_eq retry_first_attempt calm_def
      tally_errors_def emit_def del: operations.simps)

lemma delay_batch:
  "delay (batch_throttled parse t bulkN docs st) =
   delay (bulk_retry_throttled bulkN (fst (operations parse t docs st)) 0 (snd (operations parse t docs st)))"
  by (simp add: batch_throttled_def Let_def emit_def case_prod_unfold
      del: operations.simps)

lemma paced_pages:
  "paced st \<Longrightarrow> paced (state_of (pages_throttled parse t bulkE n docs rs st))"
proof (induction parse t bulkE n docs rs st rule: pages_throttled.induct)
  case (1 parse t bulkE n rs st)
  then show ?case by simp
next
  case (2 parse t bulkE n d ds rs st)
  let ?st1 = "emit ScrollCall (batch_throttled parse t (bulkE n) (d # ds) st)"
  have p: "paced ?st1"
    using paced_batch [OF "2.prems", of parse t "bulkE n" "d # ds"] by (simp add: paced_def emit_def)
  show ?case
  proof (cases rs)
    case Nil
    then show ?thesis using p by (simp add: Let_def)
  next
    case (Cons r rs')
    show ?thesis
    proof (cases r)
      case (Rejected f)
      then show ?thesis using p Cons by (simp add: Let_def)
    next
      case (Resolved page)
      show ?thesis
      proof (cases page)
        case None
        then show ?thesis using p Cons Resolved by (simp add: Let_def)
      next
        case (Some hits)
        have "paced (state_of (pages_throttled parse t bulkE (n + 1) hits rs' ?st1))"
          using "2.IH" [OF refl Cons Resolved Some] p by simp
        then show ?thesis using Cons Resolved Some by (simp add: Let_def)
      qed
    qed
  qed
qed

lemma calm_pages:
  "calm st \<Longrightarrow> (\<forall>m. \<exists>resp. bulkE m 0 = Resolved resp) \<Longrightarrow>
   calm (state_of (pages_throttled parse t bulkE n docs rs st))"
proof (induction parse t bulkE n docs rs st rule: pages_throttled.induct)
  case (1 parse t bulkE n rs st)
  then show ?case by simp
next
  case (2 parse t bulkE n d ds rs st)
  let ?st1 = "emit ScrollCall (batch_throttled parse t (bulkE n) (d # ds) st)"
  from "2.prems"(2) obtain resp where "bulkE n 0 = Resolved resp" by blast
  then have p: "calm ?st1"
    using calm_batch [OF "2.prems"(1), of "bulkE n" resp parse t "d # ds"]
    by (simp add: calm_def emit_def)
  show ?case
  proof (cases rs)
    case Nil
    then show ?thesis using p by (simp add: Let_def)
  next
    case (Cons r rs')
    show ?thesis
    proof (cases r)
      case (Rejected f)
      then show ?thesis using p Cons by (simp add: Let_def)
    next
      case (Resolved page)
      show ?thesis
      proof (cases page)
        case None
        then show ?thesis using p Cons Resolved by (simp add: Let_def)
      next
        case (Some hits)
        have "calm (state_of (pages_throttled parse t bulkE (n + 1) hits rs' ?st1))"
          using "2.IH" [OF refl Cons Resolved Some] p "2.prems"(2) by simp
        then show ?thesis using Cons Resolved Some by (simp add: Let_def)
      qed
    qed
  qed
qed

lemma provision_throttled:
  "sleeps (trace (state_of (provision e st))) = sleeps (trace st)"
  "delay (state_of (provision e (st::throttled))) = delay st"
  by (simp_all add: provision_def Let_def emit_def split: outcome.splits bool.splits)

lemma paced_swallow: "paced (state_of c) \<Longrightarrow> paced (swallow c)"
  by (cases c) (simp_all add: swallow_def paced_def emit_def)

lemma calm_swallow: "calm (state_of c) \<Longrightarrow> calm (swallow c)"
  by (cases c) (simp_all add: swallow_def calm_def emit_def)

lemma paced_init: "paced init_throttled"
  by (simp add: paced_def init_throttled_def BASE_DELAY_def MAX_DELAY_def)

lemma calm_init: "calm init_throttled"
  by (simp add: calm_def init_throttled_def)

lemma pace_view_emit [simp]:
  "pace_view (emit (Call c) st) = pace_view st"
  "pace_view (emit (LogError m) st) = pace_view st"
  "pace_view (emit ClearScrollCall st) = pace_view st"
  "pace_view (emit ScrollCall st) = pace_view st"
  by (simp_all add: pace_view_def emit_def)

lemma pace_view_provision [simp]: "pace_view (state_of (provision e st)) = pace_view st"
  by (simp add: pace_view_def provision_throttled)

lemma pace_view_swallow [simp]: "pace_view (swallow c) = pace_view (state_of c)"
  by (cases c) (simp_all add: swallow_def)

lemma sync_view:
  "\<exists>docs. pace_view (syncData_throttled parse t e) =
     pace_view (state_of (pages_throttled parse t (bulk e) 0 docs (scrolls e)
       (emit (Call ''search'') (emit (Call ''count'') (state_of (provision e init_throttled))))))"
proof (cases "provision e init_throttled")
  case (Threw f st)
  have "pace_view st = pace_view init_throttled"
    using pace_view_provision [of e init_throttled] Threw by simp
  then show ?thesis
    by (intro exI [of _ "[]"]) (simp add: syncData_throttled_def Threw)
next
  case (Returned st0)
  have v0: "pace_view st0 = pace_view init_throttled"
    using pace_view_provision [of e init_throttled] Returned by simp
  show ?thesis
  proof (cases "countDocs e")
    case (Rejected f)
    then show ?thesis
      by (intro exI [of _ "[]"]) (simp add: syncData_throttled_def Returned)
  next
    case (Resolved c)
    show ?thesis
    proof (cases c)
      case None
      then show ?thesis using Resolved
        by (intro exI [of _ "[]"]) (simp add: syncData_throttled_def Returned)
    next
      case (Some totalDocs)
      show ?thesis
      proof (cases "search e")
        case (Rejected f)
        then show ?thesis using Resolved Some
          by (intro exI [of _ "[]"]) (simp add: syncData_throttled_def Returned)
      next
        case found: (Resolved p)
        show ?thesis
        proof (cases p)
          case None
          then show ?thesis using Resolved Some found
            by (intro exI [of _ "[]"]) (simp add: syncData_throttled_def Returned)
        next
          case docs: (Some documents)
          show ?thesis using Resolved Some found docs
            by (intro exI [of _ documents])
               (simp add: syncData_throttled_def Returned Let_def
                  split: completion.split outcome.split del: pages_throttled.simps)
        qed
      qed
    qed
  qed
qed

lemma paced_view: "pace_view st = pace_view st' \<Longrightarrow> paced st = paced st'"
  by (simp add: pace_view_def paced_def)

lemma calm_view: "pace_view st = pace_view st' \<Longrightarrow> calm st = calm st'"
  by (simp add: pace_view_def calm_def)

lemma paced_sync: "paced (syncData_throttled parse t e)"
proof -
  obtain docs where v: "pace_view (syncData_throttled parse t e) =
     pace_view (state_of (pages_throttled parse t (bulk e) 0 docs (scrolls e)
       (emit (Call ''search'') (emit (Call ''count'') (state_of (provision e init_throttled))))))"
    using sync_view by blast
  have "paced (emit (Call ''search'') (emit (Call ''count'') (state_of (provision e init_throttled))))"
    by (simp add: paced_view [of _ init_throttled] paced_init)
  from paced_pages [where bulkE = "bulk e", OF this] show ?thesis
    using paced_view [OF v] by simp
qed

lemma calm_sync:
  assumes "\<forall>m. \<exists>resp. bulk e m 0 = Resolved resp"
  shows "calm (syncData_throttled parse t e)"
proof -
  obtain docs where v: "pace_view (syncData_throttled parse t e) =
     pace_view (state_of (pages_throttled parse t (bulk e) 0 docs (scrolls e)
       (emit (Call ''search'') (emit (Call ''count'') (state_of (provision e init_throttled))))))"
    using sync_view by blast
  have "calm (emit (Call ''search'') (emit (Call ''count'') (state_of (provision e init_throttled))))"
    by (simp add: calm_view [of _ init_throttled] calm_init)
  from calm_pages [where bulkE = "bulk e", OF this assms] show ?thesis
    using calm_view [OF v] by simp
qed

text \<open>
  C8, amended. In the throttled program the wait after each batch is the current backoff
  delay. A pass starts with \<open>BASE_DELAY\<close>; a batch whose first bulk attempt succeeds
  leaves the delay as it is, a failed attempt raises it, and nothing lowers it again. So
  every wait of a pass lies between \<open>BASE_DELAY\<close> and \<open>MAX_DELAY\<close>, and all waits
  equal \<open>BASE_DELAY\<close> in a pass whose bulk calls all succeed at the first attempt.
\<close>

theorem pacing_wait:
  "(\<exists>tr. trace (batch_throttled parse t bulkN docs st) =
           tr @ [Sleep (delay (batch_throttled parse t bulkN docs st))])
   \<and> (delay st \<le> MAX_DELAY \<longrightarrow>
        delay st \<le> delay (batch_throttled parse t bulkN docs st)
        \<and> delay (batch_throttled parse t bulkN docs st) \<le> MAX_DELAY)
   \<and> ((\<exists>resp. bulkN 0 = Resolved resp) \<longrightarrow> delay (batch_throttled parse t bulkN docs st) = delay st)
   \<and> delay init_throttled = BASE_DELAY
   \<and> (\<forall>ms \<in> set (sleeps (trace (syncData_throttled parse t e))). BASE_DELAY \<le> ms \<and> ms \<le> MAX_DELAY)
   \<and> ((\<forall>m. \<exists>resp. bulk e m 0 = Resolved resp) \<longrightarrow>
        (\<forall>ms \<in> set (sleeps (trace (syncData_throttled parse t e))). ms = BASE_DELAY))"
proof (intro conjI impI)
  show "\<exists>tr. trace (batch_throttled parse t bulkN docs st) =
           tr @ [Sleep (delay (batch_throttled parse t bulkN docs st))]"
    using batch_throttled_trace by blast
next
  assume "delay st \<le> MAX_DELAY"
  then have "delay (snd (operations parse t docs st)) \<le> MAX_DELAY"
    by (simp add: operations_eq)
  from delay_retry [OF this, of bulkN "fst (operations parse t docs st)" 0]
  show "delay st \<le> delay (batch_throttled parse t bulkN docs st)"
    and "delay (batch_throttled parse t bulkN docs st) \<le> MAX_DELAY"
    by (simp_all add: delay_batch) (simp add: operations_eq)
next
  assume "\<exists>resp. bulkN 0 = Resolved resp"
  then obtain resp where "bulkN 0 = Resolved resp" by blast
  then show "delay (batch_throttled parse t bulkN docs st) = delay st"
    by (simp add: delay_batch retry_first_attempt delay_tally emit_def operations_eq)
next
  show "delay init_throttled = BASE_DELAY" by (simp add: init_throttled_def)
next
  show "\<forall>ms \<in> set (sleeps (trace (syncData_throttled parse t e))). BASE_DELAY \<le> ms \<and> ms \<le> MAX_DELAY"
    using paced_sync [where e = e and parse = parse and t = t] by (simp add: paced_def list_all_iff)
next
  assume "\<forall>m. \<exists>resp. bulk e m 0 = Resolved resp"
  then show "\<forall>ms \<in> set (sleeps (trace (syncData_throttled parse t e))). ms = BASE_DELAY"
    using calm_sync [where e = e and parse = parse and t = t] by (simp add: calm_def list_all_iff)
qed
theorem pacing_wait_witness:
  "delay init_throttled \<le> MAX_DELAY \<and> failing_first 0 0 = Resolved accepted
   \<and> delay (batch_throttled decode_sample ''target'' (failing_first 0) [doc_a] init_throttled) = 10000
   \<and> list_all (\<lambda>ms. ms = 10000)
        (sleeps (trace (syncData_throttled decode_sample ''target''
           (env_of [doc_a] [[doc_b]] (\<lambda>n. failing_first 0)))))
   \<and> sleeps (trace (syncData_throttled decode_sample ''target''
           (env_of [doc_a] [[doc_b]] (\<lambda>n. failing_first 0)))) = [10000, 10000]"
proof -
  have v: "sleeps (trace (syncData_throttled decode_sample ''target''
           (env_of [doc_a] [[doc_b]] (\<lambda>n. failing_first 0)))) = [10000, 10000]"
    by (simp add: syncData_throttled_def env_of_def provision_def swallow_def batch_throttled_def
        bulk_retry_throttled.simps failing_first_def accepted_def tally_errors_def
        decode_payload_def decode_sample_def doc_a_def doc_b_def init_throttled_def
        BASE_DELAY_def MAX_DELAY_def MAX_RETRIES_def emit_def Let_def)
  note w = pacing_wait [where st = init_throttled and bulkN = "failing_first 0"
      and parse = decode_sample and t = "''target''" and docs = "[doc_a]"
      and e = "env_of [doc_a] [[doc_b]] (\<lambda>n. failing_first 0)"]
  have a: "failing_first 0 0 = Resolved accepted"
    by (simp add: failing_first_def)
  have b: "\<forall>m. \<exists>resp. bulk (env_of [doc_a] [[doc_b]] (\<lambda>n. failing_first 0)) m 0 = Resolved resp"
    by (simp add: env_of_def failing_first_def)
  have c: "delay init_throttled \<le> MAX_DELAY"
    by (simp add: init_throttled_def BASE_DELAY_def MAX_DELAY_def)
  have "delay (batch_throttled decode_sample ''target'' (failing_first 0) [doc_a] init_throttled)
      = delay init_throttled"
    using w a by blast
  moreover have "\<forall>ms \<in> set (sleeps (trace (syncData_throttled decode_sample ''target''
           (env_of [doc_a] [[doc_b]] (\<lambda>n. failing_first 0))))). ms = BASE_DELAY"
    using w b by blast
  ultimately show ?thesis
    using a c v by (simp add: list_all_iff init_throttled_def BASE_DELAY_def)
qed

text \<open>
  The claim as stated fails once a bulk attempt has been rejected: the first attempt of
  the first batch fails, the retry succeeds, and the second and third batch succeed at once;
  all three pacing waits, also the one between the second and the third batch, are
  20000 ms and not \<open>BASE_DELAY\<close>.
\<close>

theorem pacing_wait_counterexample:
  "syncData_throttled decode_sample ''target'' (env_of [doc_a] [[doc_b], [doc_b]] stumble_first) =
     \<lparr>processedDocs = 3, failedDocs = 0,
      trace =
        [Call ''indices.exists'', Call ''count'', Call ''search'',
         BulkCall [IndexAction ''target'' ''a'', SourceBody [(''jsonPayload'', JArr [JNum 1])]],
         LogError (BulkInsertFailed 1 5), Sleep 10000,
         BulkCall [IndexAction ''target'' ''a'', SourceBody [(''jsonPayload'', JArr [JNum 1])]],
         Sleep 20000, ScrollCall,
         BulkCall [IndexAction ''target'' ''b'', SourceBody [(''jsonPayload'', JArr [JNum 2])]],
         Sleep 20000, ScrollCall,
         BulkCall [IndexAction ''target'' ''b'', SourceBody [(''jsonPayload'', JArr [JNum 2])]],
         Sleep 20000, ScrollCall, ClearScrollCall],
      delay = 20000\<rparr>
   \<and> BASE_DELAY = 10000"
  by (simp add: syncData_throttled_def env_of_def provision_def swallow_def batch_throttled_def
      bulk_retry_throttled.simps stumble_first_def accepted_def tally_errors_def
      decode_payload_def decode_sample_def doc_a_def doc_b_def init_throttled_def BASE_DELAY_def
      MAX_DELAY_def MAX_RETRIES_def emit_def Let_def)

section \<open>The change detector\<close>

lemma body_eq: "body r = Some b \<longleftrightarrow> r = GetResponse (Some b)"
  by (cases r) auto

lemma source_eq: "stored_source b = Some v \<longleftrightarrow> b = GetBody (Some v)"
  by (cases b) auto

lemma hasDocumentChanged_fst:
  "fst (hasDocumentChanged tget index docId newData st) =
     (\<not> (\<exists>existing. tget index docId = Resolved (GetResponse (Some (GetBody (Some existing))))
           \<and> truthy existing \<and> stringify existing = stringify (JObj newData)))"
  by (auto simp: hasDocumentChanged_def Let_def body_eq source_eq split: outcome.splits option.splits)

text \<open>
  C10. \<open>hasDocumentChanged\<close> returns false exactly when the fetch finds a stored document
  whose serialization is the same string as the candidate's. The documents \<open>stored_ab\<close>
  and \<open>candidate_ba\<close> are deep-structurally equal and differ in the order of their
  members only; for them it returns true.
\<close>

theorem serialization_decides:
  "fst (hasDocumentChanged tget index docId newData st) =
     (\<not> (\<exists>existing. tget index docId = Resolved (GetResponse (Some (GetBody (Some existing))))
           \<and> truthy existing \<and> stringify existing = stringify (JObj newData)))
   \<and> deep_equal (JObj stored_ab) (JObj candidate_ba)
   \<and> map fst stored_ab \<noteq> map fst candidate_ba
   \<and> fst (hasDocumentChanged (found (JObj stored_ab)) index docId candidate_ba st) = True"
proof -
  have "stringify (JObj stored_ab) \<noteq> stringify (JObj candidate_ba)"
    by (simp add: stored_ab_def candidate_ba_def quote_def escape_char_def dquote_def bslash_def)
  then have "fst (hasDocumentChanged (found (JObj stored_ab)) index docId candidate_ba st) = True"
    by (simp add: hasDocumentChanged_fst found_def)
  moreover have "deep_equal (JObj stored_ab) (JObj candidate_ba)"
    by (simp add: stored_ab_def candidate_ba_def insert_commute)
  moreover have "map fst stored_ab \<noteq> map fst candidate_ba"
    by (simp add: stored_ab_def candidate_ba_def)
  ultimately show ?thesis
    using hasDocumentChanged_fst [of tget index docId newData st] by blast
qed

theorem serialization_decides_witness:
  "fst (hasDocumentChanged (found (JObj stored_ab)) ''target'' ''a'' stored_ab init) = False
   \<and> fst (hasDocumentChanged (found (JObj stored_ab)) ''target'' ''a'' candidate_ba init) = True
   \<and> deep_equal (JObj stored_ab) (JObj candidate_ba)"
proof -
  note w = serialization_decides [of "found (JObj stored_ab)" "''target''" "''a''" stored_ab init]
  have "found (JObj stored_ab) ''target'' ''a'' =
      Resolved (GetResponse (Some (GetBody (Some (JObj stored_ab)))))"
    by (simp add: found_def)
  then have "fst (hasDocumentChanged (found (JObj stored_ab)) ''target'' ''a'' stored_ab init) = False"
    using w by simp
  moreover have "fst (hasDocumentChanged (found (JObj stored_ab)) ''target'' ''a'' candidate_ba init) = True"
    using w by blast
  ultimately show ?thesis using w by blast
qed


section \<open>Counters of the differential program\<close>







section \<open>Replaying a bulk request\<close>

lemma map_add_twice: "m ++ g ++ g = m ++ g"
  by (rule ext) (simp add: map_add_def split: option.split)

lemma bulkWrite_adds:
  fixes m :: collection
  shows "\<exists>g. \<forall>m'. bulkWrite ops m' = m' ++ g"
proof (induction ops m rule: bulkWrite.induct)
  case (1 index docId source rest m)
  then obtain g where g: "\<forall>m'. bulkWrite rest m' = m' ++ g" by blast
  have "\<forall>m'. bulkWrite (IndexAction index docId # SourceBody source # rest) m' =
      m' ++ ([(index, docId) \<mapsto> source] ++ g)"
    by (simp add: g)
  then show ?case by blast
qed (auto intro: exI [of _ Map.empty])

lemma find_snoc:
  "find P (xs @ [x]) =
     (case find P xs of Some y \<Rightarrow> Some y | None \<Rightarrow> if P x then Some x else None)"
  by (induction xs) simp_all

lemma bulkWrite_operations:
  "bulkWrite (fst (operations parse t documents st)) m (t, i) =
     (case find (\<lambda>doc. doc_id doc = i) (rev documents) of
        Some doc \<Rightarrow> Some (written_source parse doc)
      | None \<Rightarrow> m (t, i))"
proof (induction documents arbitrary: m)
  case Nil
  then show ?case by (simp add: operations_eq)
next
  case (Cons doc documents)
  have "bulkWrite (fst (operations parse t (doc # documents) st)) m =
      bulkWrite (fst (operations parse t documents st)) (m((t, doc_id doc) \<mapsto> written_source parse doc))"
    by (simp add: operations_eq)
  then show ?case
    by (simp add: Cons.IH find_snoc split: option.split)
qed

text \<open>
  C6. In unconditional-upsert mode the bulk request built from a page has one index action
  per record, keyed by the record's identifier. With the target's index action modelled as
  a store under that key, writing the request a second time leaves the collection as the
  first write left it; after the write, each identifier of the page holds the source
  written for its last record.
\<close>

theorem replay_idempotent:
  "bulkWrite (fst (operations parse t documents st))
     (bulkWrite (fst (operations parse t documents st)) m) =
   bulkWrite (fst (operations parse t documents st)) m"
proof -
  obtain g where "\<forall>m'. bulkWrite (fst (operations parse t documents st)) m' = m' ++ g"
    using bulkWrite_adds by blast
  then show ?thesis by (simp add: map_add_twice)
qed

theorem replay_idempotent_witness:
  "bulkWrite (fst (operations decode_sample ''target'' [doc_a, doc_b] init))
     (bulkWrite (fst (operations decode_sample ''target'' [doc_a, doc_b] init)) Map.empty) =
   bulkWrite (fst (operations decode_sample ''target'' [doc_a, doc_b] init)) Map.empty
   \<and> bulkWrite (fst (operations decode_sample ''target'' [doc_a, doc_b] init)) Map.empty
        (''target'', ''a'') = Some [(''jsonPayload'', JArr [JNum 1])]
   \<and> bulkWrite (fst (operations decode_sample ''target'' [doc_a, doc_b] init)) Map.empty
        (''target'', ''b'') = Some [(''jsonPayload'', JArr [JNum 2])]"
proof -
  have "written_source decode_sample doc_a = [(''jsonPayload'', JArr [JNum 1])]"
    "written_source decode_sample doc_b = [(''jsonPayload'', JArr [JNum 2])]"
    by (simp_all add: written_source_def decode_payload_def decode_sample_def doc_a_def doc_b_def)
  moreover have "doc_id doc_a = ''a''" "doc_id doc_b = ''b''"
    by (simp_all add: doc_a_def doc_b_def)
  ultimately show ?thesis
    using replay_idempotent [of decode_sample "''target''" "[doc_a, doc_b]" init Map.empty]
    by (simp add: bulkWrite_operations del: operations.simps)
qed

section \<open>Properties of the schedulers\<close>

lemma env_empty_fields:
  "indexExists env_empty = Resolved True" "countDocs env_empty = Resolved (Some 0)"
  "search env_empty = Resolved (Some [])" "scrolls env_empty = []"
  "clearScroll env_empty = Resolved ()"
  by (simp_all add: env_empty_def env_of_def)

lemma pass_empty_restart:
  "syncData_restart parse t env_empty =
     Returned \<lparr>processedDocs = 0, failedDocs = 0,
       trace = [Call ''indices.exists'', Call ''count'', Call ''search'', ClearScrollCall,
                RestartTimer 5000]\<rparr>"
  by (simp add: syncData_restart_def env_empty_fields provision_present init_def emit_def)

lemma timers_one:
  "timers_set [Call ''indices.exists'', Call ''count'', Call ''search'', ClearScrollCall,
               RestartTimer 5000] = 1"
  by (simp add: timers_set_def)

lemma step_throttled_detached:
  "step_throttled parse t s h = Some s' \<Longrightarrow> detached s' = detached s"
  by (cases h) (auto split: if_splits main_state.splits)

lemma step_diff_detached:
  "step_diff parse t s h = Some s' \<Longrightarrow> detached s' = detached s"
  by (cases h) (auto split: if_splits main_state.splits option.splits pass_end.splits)

lemma run_detached:
  assumes "\<And>s h s'. step s h = Some s' \<Longrightarrow> detached s' = detached s"
  shows "run step s hs = Some s' \<Longrightarrow> detached s' = detached s"
proof (induction hs arbitrary: s)
  case Nil
  then show ?case by simp
next
  case (Cons h hs)
  then obtain s1 where 1: "step s h = Some s1" and 2: "run step s1 hs = Some s'"
    by (auto split: option.splits)
  from Cons.IH [OF 2] assms [OF 1] show ?case by simp
qed

lemma others_serialized:
  "run (step_throttled parse t) boot hs = Some s \<Longrightarrow> passes_in_flight s \<le> 1"
  "run (step_diff parse t) boot hs = Some s \<Longrightarrow> passes_in_flight s \<le> 1"
  using run_detached [of "step_throttled parse t" boot hs s, OF step_throttled_detached]
    run_detached [of "step_diff parse t" boot hs s, OF step_diff_detached]
  by (simp_all add: passes_in_flight_def boot_def)

text \<open>
  C2. In the restarting program the passes are not serialized. A pass that completes sets a
  timer that starts \<^verbatim>\<open>syncData\<close> again after 5000 ms, and the loop of \<^verbatim>\<open>main\<close>, which
  awaited that pass, starts \<^verbatim>\<open>syncData\<close> as well after its own 5000 ms: once the first
  pass has completed and both timers have fired, two passes are in flight.
\<close>

theorem restart_passes_overlap:
  "run (step_restart parse t) boot [MainPassEnds env_empty, RestartTimerFires, MainTimerFires] =
     Some \<lparr>main_at = AwaitingPass, detached = 1, restart_timers = 0\<rparr>
   \<and> passes_in_flight \<lparr>main_at = AwaitingPass, detached = 1, restart_timers = 0\<rparr> = 2"
  by (simp add: pass_empty_restart timers_one boot_def passes_in_flight_def)

theorem restart_passes_overlap_witness:
  "run (step_restart decode_sample ''target'') boot
     [MainPassEnds env_empty, RestartTimerFires, MainTimerFires] =
     Some \<lparr>main_at = AwaitingPass, detached = 1, restart_timers = 0\<rparr>"
  using restart_passes_overlap [of decode_sample "''target''"] by blast






section \<open>The serialization is injective\<close>





























end
